theory Spec2Isabelle
  imports Complex_Main "HOL-Library.Log_Nat" "HOL-Library.Multiset"
begin

section \<open>The ExaMPM solver driver (\<^verbatim>\<open>src/ExaMPM_Solver.hpp\<close>)\<close>

text \<open>
  The header defines the class \<^verbatim>\<open>Solver\<close> (constructor and \<^verbatim>\<open>solve\<close>) and the
  factory \<^verbatim>\<open>createSolver\<close>. Everything else (\<^verbatim>\<open>Mesh\<close>, \<^verbatim>\<open>ProblemManager\<close>,
  \<^verbatim>\<open>TimeIntegrator\<close>, \<^verbatim>\<open>BoundaryCondition\<close>, the Cajita load balancer, the writers)
  is only called from it. The driver is modelled as it is written: the collaborators are
  parameters (a record of functions over abstract component states), the mutable members
  are a record that is passed along, and the calls to the collaborators are recorded, in
  program order, in a list of events (the getters whose result is only handed on, such as
  \<^verbatim>\<open>getVertices\<close>, appear as the argument of the call they feed). Arithmetic on
  \<^verbatim>\<open>double\<close> is IEEE 754 binary64; \<^verbatim>\<open>int\<close> has 32 bits. Only the conservation of particles by the migration is not
  decided by the header: for it the particle store is modelled from the specification,
  in a subsection of its own.
\<close>

subsection \<open>Errors\<close>

datatype error =
    RuntimeError string         \<comment> \<open>\<^verbatim>\<open>throw std::runtime_error( msg )\<close>\<close>
  | CollaboratorError string    \<comment> \<open>an exception thrown by the \<^verbatim>\<open>Mesh\<close> constructor\<close>
  | IntegerDivisionByZero       \<comment> \<open>\<^verbatim>\<open>t % write_freq\<close> with \<^verbatim>\<open>write_freq == 0\<close>: undefined\<close>
  | FloatToIntOutOfRange        \<comment> \<open>\<^verbatim>\<open>int n = x\<close> with \<^verbatim>\<open>x\<close> NaN, infinite or outside \<^verbatim>\<open>int\<close>: undefined\<close>

subsection \<open>The type \<^verbatim>\<open>double\<close>: IEEE 754 binary64, round to nearest, ties to even\<close>

text \<open>
  A \<^verbatim>\<open>double\<close> is a finite value (a rational of the form \<open>m * 2^e\<close> with
  \<open>\<bar>m\<bar> < 2^53\<close> and \<open>-1074 \<le> e \<le> 971\<close>; \<open>Finite 0\<close> is \<open>+0.0\<close>), the negative
  zero, an infinity or a NaN. The operations compute the exact rational result and round
  it once, as IEEE 754 prescribes for \<^verbatim>\<open>/\<close>, \<^verbatim>\<open>*\<close> and \<^verbatim>\<open>+\<close>.
\<close>

datatype double = Finite rat | NegZero | PInf | NInf | NaN

fun is_neg :: "double \<Rightarrow> bool" where
  "is_neg (Finite q) = (q < 0)"
| "is_neg NegZero = True"
| "is_neg NInf = True"
| "is_neg PInf = False"
| "is_neg NaN = False"

fun is_inf :: "double \<Rightarrow> bool" where
  "is_inf PInf = True"
| "is_inf NInf = True"
| "is_inf _ = False"

fun is_zero :: "double \<Rightarrow> bool" where
  "is_zero (Finite q) = (q = 0)"
| "is_zero NegZero = True"
| "is_zero _ = False"

fun val :: "double \<Rightarrow> rat" where
  "val (Finite q) = q"
| "val _ = 0"

definition signed_zero :: "bool \<Rightarrow> double" where
  "signed_zero neg = (if neg then NegZero else Finite 0)"

definition signed_inf :: "bool \<Rightarrow> double" where
  "signed_inf neg = (if neg then NInf else PInf)"

text \<open>\<open>ilog2 q\<close> is \<open>\<lfloor>log\<^sub>2 q\<rfloor>\<close> for a positive rational, computed from the bit lengths.\<close>

definition ilog2 :: "rat \<Rightarrow> int" where
  "ilog2 q = (let (a, b) = quotient_of q; k = bitlen a - bitlen b
              in if of_int b * 2 powi k \<le> (of_int a :: rat) then k else k - 1)"

text \<open>The exponent of the last mantissa bit: 53 bits of precision, subnormals below \<open>2^-1022\<close>.\<close>

definition quantum :: "rat \<Rightarrow> int" where
  "quantum q = max (ilog2 \<bar>q\<bar> - 52) (- 1074)"

definition round_even :: "rat \<Rightarrow> int" where
  "round_even x = (let f = \<lfloor>x\<rfloor>; r = x - of_int f
     in if r < 1 / 2 then f else if 1 / 2 < r then f + 1 else if even f then f else f + 1)"

definition rndq :: "rat \<Rightarrow> rat" where
  "rndq q = (if q = 0 then 0
             else of_int (round_even (q / 2 powi quantum q)) * 2 powi quantum q)"

definition rnd :: "rat \<Rightarrow> double" where
  "rnd q = (if q = 0 then Finite 0
            else if 2 powi 1024 \<le> \<bar>rndq q\<bar> then signed_inf (q < 0)
            else if rndq q = 0 then signed_zero (q < 0)
            else Finite (rndq q))"

definition fdiv :: "double \<Rightarrow> double \<Rightarrow> double" where
  "fdiv x y =
     (if x = NaN \<or> y = NaN then NaN
      else if is_inf x then (if is_inf y then NaN else signed_inf (is_neg x \<noteq> is_neg y))
      else if is_inf y then signed_zero (is_neg x \<noteq> is_neg y)
      else if is_zero y then (if is_zero x then NaN else signed_inf (is_neg x \<noteq> is_neg y))
      else if is_zero x then signed_zero (is_neg x \<noteq> is_neg y)
      else rnd (val x / val y))"

definition fmul :: "double \<Rightarrow> double \<Rightarrow> double" where
  "fmul x y =
     (if x = NaN \<or> y = NaN then NaN
      else if is_inf x \<or> is_inf y then
        (if is_zero x \<or> is_zero y then NaN else signed_inf (is_neg x \<noteq> is_neg y))
      else if is_zero x \<or> is_zero y then signed_zero (is_neg x \<noteq> is_neg y)
      else rnd (val x * val y))"

definition fadd :: "double \<Rightarrow> double \<Rightarrow> double" where
  "fadd x y =
     (if x = NaN \<or> y = NaN then NaN
      else if is_inf x then (if is_inf y \<and> x \<noteq> y then NaN else x)
      else if is_inf y then y
      else if val x + val y = 0 then signed_zero (is_neg x \<and> is_neg y)
      else rnd (val x + val y))"

text \<open>IEEE equality, the \<^verbatim>\<open>==\<close> of C++: a NaN equals nothing, the two zeros are equal.\<close>

definition feq :: "double \<Rightarrow> double \<Rightarrow> bool" where
  "feq x y = (x \<noteq> NaN \<and> y \<noteq> NaN \<and> (x = y \<or> (is_zero x \<and> is_zero y)))"

text \<open>
  Conversions. \<^verbatim>\<open>int\<close> is 32 bits wide: every \<^verbatim>\<open>int\<close> is a \<^verbatim>\<open>double\<close>, and a
  \<^verbatim>\<open>double\<close> converts to \<^verbatim>\<open>int\<close> by discarding the fraction; the behaviour is undefined
  when the truncated value is not an \<^verbatim>\<open>int\<close>.
\<close>

definition int_to_double :: "int \<Rightarrow> double" where
  "int_to_double n = Finite (of_int n)"

definition size_to_double :: "nat \<Rightarrow> double" where
  "size_to_double n = rnd (of_nat n)"

definition trunc :: "rat \<Rightarrow> int" where
  "trunc q = (if 0 \<le> q then \<lfloor>q\<rfloor> else \<lceil>q\<rceil>)"

definition double_to_int :: "double \<Rightarrow> error + int" where
  "double_to_int x =
     (case x of
        Finite q \<Rightarrow>
          if - (2 ^ 31) \<le> trunc q \<and> trunc q \<le> 2 ^ 31 - 1 then Inr (trunc q)
          else Inl FloatToIntOutOfRange
      | NegZero \<Rightarrow> Inr 0
      | _ \<Rightarrow> Inl FloatToIntOutOfRange)"

text \<open>
  \<^verbatim>\<open>a % b\<close> on \<^verbatim>\<open>int\<close>: the remainder of the division that truncates towards zero,
  undefined for \<^verbatim>\<open>b == 0\<close>.
\<close>

definition rem :: "int \<Rightarrow> int \<Rightarrow> error + int" where
  "rem a b = (if b = 0 then Inl IntegerDivisionByZero
              else Inr (sgn a * (\<bar>a\<bar> mod \<bar>b\<bar>)))"

subsection \<open>Data\<close>

text \<open>
  \<^verbatim>\<open>BoundaryCondition\<close> is declared in a header that is not part of the sources; the
  solver reads and writes its members \<^verbatim>\<open>min\<close> and \<^verbatim>\<open>max\<close> only. The rest of the
  structure (the rule applied at the bounds) is the field \<open>boundary\<close>.
\<close>

record 'r BoundaryCondition =
  boundary :: 'r
  min_bc :: "int list"
  max_bc :: "int list"

text \<open>The arguments of the constructor and of \<^verbatim>\<open>createSolver\<close>, in their order.\<close>

record ('pt, 'f, 'r) solver_args =
  comm :: nat
  global_bounding_box :: "double list"
  global_num_cell :: "int list"
  periodic :: "bool list"
  partitioner :: 'pt
  halo_cell_width :: int
  create_functor :: 'f
  particles_per_cell :: int
  bulk_modulus :: double
  density :: double
  gamma :: double
  kappa :: double
  delta_t :: double
  gravity :: double
  bc :: "'r BoundaryCondition"

text \<open>The private members of \<^verbatim>\<open>Solver\<close> (\<^verbatim>\<open>_dt\<close>, \<^verbatim>\<open>_gravity\<close>, ...).\<close>

record ('m, 'p, 'l, 'pt, 'r) solver =
  m_dt :: double
  m_gravity :: double
  m_bc :: "'r BoundaryCondition"
  m_halo_min :: int
  m_mesh :: 'm
  m_pm :: 'p
  m_rank :: int
  m_comm :: nat
  m_partitioner :: 'pt
  m_lb :: 'l

text \<open>
  The collaborators. \<open>'m\<close>, \<open>'p\<close>, \<open>'l\<close> and \<open>'g\<close> are the states of the mesh, the
  problem manager (the particles), the load balancer and a global grid. The problem
  manager and the solver share one mesh object, so the operations of the problem manager
  that read the mesh take it as an argument. The collaborators called in \<^verbatim>\<open>solve\<close> are
  taken to return; of the constructors, the one of \<^verbatim>\<open>Mesh\<close> may throw.
\<close>

record ('m, 'p, 'l, 'g, 'pt, 'f, 'r) collab =
  Mesh_ctor :: "double list \<Rightarrow> int list \<Rightarrow> bool list \<Rightarrow> 'pt \<Rightarrow> int \<Rightarrow> int \<Rightarrow> nat \<Rightarrow> error + 'm"
  minDomainGlobalNodeIndex :: "'m \<Rightarrow> int list"
  maxDomainGlobalNodeIndex :: "'m \<Rightarrow> int list"
  cellSize :: "'m \<Rightarrow> double"
  ProblemManager_ctor :: "'m \<Rightarrow> 'f \<Rightarrow> int \<Rightarrow> double \<Rightarrow> double \<Rightarrow> double \<Rightarrow> double \<Rightarrow> 'p"
  MPI_Comm_rank :: "nat \<Rightarrow> int"
  LoadBalancer_ctor :: "nat \<Rightarrow> 'm \<Rightarrow> double \<Rightarrow> 'l"
  getVertices :: "'l \<Rightarrow> double list"
  getInternalVertices :: "'l \<Rightarrow> double list"
  TimeIntegrator_step :: "'m \<Rightarrow> 'p \<Rightarrow> double \<Rightarrow> double \<Rightarrow> 'r BoundaryCondition \<Rightarrow> 'p"
  numParticle :: "'p \<Rightarrow> nat"
  createBalancedGlobalGrid :: "'l \<Rightarrow> 'm \<Rightarrow> 'pt \<Rightarrow> double \<Rightarrow> 'l \<times> 'g"
  newGlobalGrid :: "'m \<Rightarrow> 'g \<Rightarrow> 'm"
  updateMesh :: "'p \<Rightarrow> 'm \<Rightarrow> 'p"
  communicateParticles :: "'m \<Rightarrow> 'p \<Rightarrow> int \<Rightarrow> 'p"

text \<open>
  What the driver does, in program order: the calls it makes, with the arguments it
  passes, and the two divisions of \<^verbatim>\<open>solve\<close>. \<open>Step\<close> carries the mesh the problem
  manager points to at the call, the time increment, the gravity and the boundary
  condition; \<open>WriteTimeStep\<close> the step index, the time and the problem manager whose
  fields are written; \<open>WriteDomain\<close> the step index, the vertices and the base name;
  \<open>Divide\<close> the dividend, the divisor and the quotient of a division of two
  \<^verbatim>\<open>double\<close> values, the one operation of the driver that can signal a division by
  zero.
\<close>

datatype ('m, 'p, 'r) event =
    MeshCtor int int
  | MinDomainGlobalNodeIndex
  | MaxDomainGlobalNodeIndex
  | ProblemManagerCtor
  | CommRank
  | LoadBalancerCtor
  | Printf int int
  | Step 'm double double "'r BoundaryCondition"
  | NumParticle
  | CreateBalancedGlobalGrid double
  | NewGlobalGrid
  | UpdateMesh
  | CommunicateParticles int
  | WriteTimeStep int double 'p
  | WriteDomain int "double list" string
  | Divide double double double

text \<open>The name of the function or operator an event evaluates.\<close>

fun callee :: "('m, 'p, 'r) event \<Rightarrow> string" where
  "callee (MeshCtor _ _) = ''Mesh''"
| "callee MinDomainGlobalNodeIndex = ''minDomainGlobalNodeIndex''"
| "callee MaxDomainGlobalNodeIndex = ''maxDomainGlobalNodeIndex''"
| "callee ProblemManagerCtor = ''ProblemManager''"
| "callee CommRank = ''MPI_Comm_rank''"
| "callee LoadBalancerCtor = ''LoadBalancer''"
| "callee (Printf _ _) = ''printf''"
| "callee (Step _ _ _ _) = ''step''"
| "callee NumParticle = ''numParticle''"
| "callee (CreateBalancedGlobalGrid _) = ''createBalancedGlobalGrid''"
| "callee NewGlobalGrid = ''newGlobalGrid''"
| "callee UpdateMesh = ''updateMesh''"
| "callee (CommunicateParticles _) = ''communicateParticles''"
| "callee (WriteTimeStep _ _ _) = ''writeTimeStep''"
| "callee (WriteDomain _ _ _) = ''writeDomain''"
| "callee (Divide _ _ _) = ''operator/''"

subsection \<open>The constructor \<^verbatim>\<open>Solver::Solver\<close>\<close>

text \<open>
  The initialiser list copies \<^verbatim>\<open>delta_t\<close>, \<^verbatim>\<open>gravity\<close> and \<^verbatim>\<open>bc\<close> and sets
  \<^verbatim>\<open>_halo_min\<close> to the literal 3; the body builds the mesh, assigns \<^verbatim>\<open>_bc.min\<close> and
  \<^verbatim>\<open>_bc.max\<close> from it, then builds the problem manager, reads the rank and builds the
  load balancer. An exception of the \<^verbatim>\<open>Mesh\<close> constructor leaves the body.
\<close>

definition Solver ::
  "('m, 'p, 'l, 'g, 'pt, 'f, 'r) collab \<Rightarrow> ('pt, 'f, 'r) solver_args
     \<Rightarrow> ('m, 'p, 'r) event list \<times> (error + ('m, 'p, 'l, 'pt, 'r) solver)" where
  "Solver K a =
     (let dt0 = delta_t a; gravity0 = gravity a; bc0 = bc a; halo_min = 3;
          comm0 = comm a; partitioner0 = partitioner a
      in case Mesh_ctor K (global_bounding_box a) (global_num_cell a) (periodic a)
                partitioner0 (halo_cell_width a) halo_min comm0 of
           Inl e \<Rightarrow> ([MeshCtor (halo_cell_width a) halo_min], Inl e)
         | Inr mesh \<Rightarrow>
             let bc1 = bc0\<lparr>min_bc := minDomainGlobalNodeIndex K mesh\<rparr>;
                 bc2 = bc1\<lparr>max_bc := maxDomainGlobalNodeIndex K mesh\<rparr>;
                 pm = ProblemManager_ctor K mesh (create_functor a) (particles_per_cell a)
                        (bulk_modulus a) (density a) (gamma a) (kappa a);
                 rank = MPI_Comm_rank K comm0;
                 lb = LoadBalancer_ctor K comm0 mesh (fmul (Finite 3) (cellSize K mesh))
             in ([MeshCtor (halo_cell_width a) halo_min, MinDomainGlobalNodeIndex,
                  MaxDomainGlobalNodeIndex, ProblemManagerCtor, CommRank, LoadBalancerCtor],
                 Inr \<lparr>m_dt = dt0, m_gravity = gravity0, m_bc = bc2, m_halo_min = halo_min,
                      m_mesh = mesh, m_pm = pm, m_rank = rank, m_comm = comm0,
                      m_partitioner = partitioner0, m_lb = lb\<rparr>))"

subsection \<open>\<^verbatim>\<open>Solver::solve\<close>\<close>

text \<open>
  One snapshot: the particle fields through \<^verbatim>\<open>SiloParticleWriter::writeTimeStep\<close>, then
  the two domain geometries through \<^verbatim>\<open>VTKDomainWriter::writeDomain\<close>, whose step
  argument is the literal 0.
\<close>

definition write_snapshot ::
  "('m, 'p, 'l, 'g, 'pt, 'f, 'r) collab \<Rightarrow> ('m, 'p, 'l, 'pt, 'r) solver \<Rightarrow> int \<Rightarrow> double
     \<Rightarrow> ('m, 'p, 'r) event list" where
  "write_snapshot K s step_index time =
     [WriteTimeStep step_index time (m_pm s),
      WriteDomain 0 (getVertices K (m_lb s)) ''domain_act'',
      WriteDomain 0 (getInternalVertices K (m_lb s)) ''domain_lb'']"

text \<open>
  \<^verbatim>\<open>if ( 0 == _rank && 0 == t % write_freq ) printf( ... )\<close>: the remainder is evaluated
  on rank 0 only.
\<close>

definition progress_notice :: "int \<Rightarrow> int \<Rightarrow> int \<Rightarrow> int \<Rightarrow> ('m, 'p, 'r) event list \<times> error option" where
  "progress_notice rank t write_freq num_step =
     (if 0 = rank then
        (case rem t write_freq of
           Inl e \<Rightarrow> ([], Some e)
         | Inr r \<Rightarrow> (if 0 = r then [Printf (t + 1) num_step] else [], None))
      else ([], None))"

text \<open>
  The body of the loop, for the counter \<open>t\<close>: the events of the iteration and either the
  fault that ends it or the members and the local \<^verbatim>\<open>time\<close> after it.
\<close>

definition loop_body ::
  "('m, 'p, 'l, 'g, 'pt, 'f, 'r) collab \<Rightarrow> int \<Rightarrow> int \<Rightarrow> double \<Rightarrow> int
     \<Rightarrow> ('m, 'p, 'l, 'pt, 'r) solver \<times> double
     \<Rightarrow> ('m, 'p, 'r) event list \<times> (error + ('m, 'p, 'l, 'pt, 'r) solver \<times> double)" where
  "loop_body K write_freq num_step dlt t st =
     (let s = fst st; time = snd st
      in case progress_notice (m_rank s) t write_freq num_step of
           (ev0, Some e) \<Rightarrow> (ev0, Inl e)
         | (ev0, None) \<Rightarrow>
             let pm1 = TimeIntegrator_step K (m_mesh s) (m_pm s) dlt (m_gravity s) (m_bc s);
                 work = size_to_double (numParticle K pm1);
                 bal = createBalancedGlobalGrid K (m_lb s) (m_mesh s) (m_partitioner s) work;
                 mesh1 = newGlobalGrid K (m_mesh s) (snd bal);
                 pm2 = updateMesh K pm1 mesh1;
                 pm3 = communicateParticles K mesh1 pm2 (m_halo_min s);
                 s1 = s\<lparr>m_mesh := mesh1, m_pm := pm3, m_lb := fst bal\<rparr>;
                 ev1 = ev0 @ [Step (m_mesh s) dlt (m_gravity s) (m_bc s), NumParticle,
                              CreateBalancedGlobalGrid work, NewGlobalGrid, UpdateMesh,
                              CommunicateParticles (m_halo_min s)]
             in case rem t write_freq of
                  Inl e \<Rightarrow> (ev1, Inl e)
                | Inr r \<Rightarrow>
                    (ev1 @ (if 0 = r then write_snapshot K s1 (t + 1) time else []),
                     Inr (s1, fadd time dlt)))"

text \<open>\<^verbatim>\<open>for ( int t = 0; t < num_step; ++t )\<close>, started at any \<open>t\<close>.\<close>

function solve_loop ::
  "('m, 'p, 'l, 'g, 'pt, 'f, 'r) collab \<Rightarrow> int \<Rightarrow> int \<Rightarrow> double \<Rightarrow> int
     \<Rightarrow> ('m, 'p, 'l, 'pt, 'r) solver \<times> double
     \<Rightarrow> ('m, 'p, 'r) event list \<times> (error + ('m, 'p, 'l, 'pt, 'r) solver \<times> double)" where
  "solve_loop K write_freq num_step dlt t st =
     (if t < num_step then
        (case loop_body K write_freq num_step dlt t st of
           (ev, Inl e) \<Rightarrow> (ev, Inl e)
         | (ev, Inr st1) \<Rightarrow>
             (let rest = solve_loop K write_freq num_step dlt (t + 1) st1
              in (ev @ fst rest, snd rest)))
      else ([], Inr st))"
  by pat_completeness auto
termination
  by (relation "measure (\<lambda>(K, write_freq, num_step, dlt, t, st). nat (num_step - t))") auto

declare solve_loop.simps [simp del]

text \<open>
  \<^verbatim>\<open>solve\<close>: the snapshot before the loop, \<^verbatim>\<open>int num_step = t_final / _dt\<close>,
  \<^verbatim>\<open>double delta_t = t_final / num_step\<close>, \<^verbatim>\<open>double time = 0.0\<close>, the loop. Both
  divisions are evaluated where they stand, whatever their divisor is, and each is an
  event of the run; the conversion of the first quotient to \<^verbatim>\<open>int\<close> may fault. The
  result is the list of events and either the fault that ended the run or the members
  and the local \<^verbatim>\<open>time\<close> at the end. The local \<^verbatim>\<open>delta_t\<close> is written \<open>dlt\<close>, as the
  constructor's argument of that name is a field of \<open>solver_args\<close>.
\<close>

definition num_step_of :: "double \<Rightarrow> double \<Rightarrow> error + int" where
  "num_step_of t_final dt0 = double_to_int (fdiv t_final dt0)"

definition delta_t_of :: "double \<Rightarrow> int \<Rightarrow> double" where
  "delta_t_of t_final num_step = fdiv t_final (int_to_double num_step)"

definition solve ::
  "('m, 'p, 'l, 'g, 'pt, 'f, 'r) collab \<Rightarrow> ('m, 'p, 'l, 'pt, 'r) solver \<Rightarrow> double \<Rightarrow> int
     \<Rightarrow> ('m, 'p, 'r) event list \<times> (error + ('m, 'p, 'l, 'pt, 'r) solver \<times> double)" where
  "solve K s t_final write_freq =
     (let ev0 = write_snapshot K s 0 (Finite 0);
          ev1 = ev0 @ [Divide t_final (m_dt s) (fdiv t_final (m_dt s))]
      in case num_step_of t_final (m_dt s) of
           Inl e \<Rightarrow> (ev1, Inl e)
         | Inr num_step \<Rightarrow>
             (let dlt = delta_t_of t_final num_step;
                  ev2 = ev1 @ [Divide t_final (int_to_double num_step) dlt];
                  run = solve_loop K write_freq num_step dlt 0 (s, Finite 0)
              in (ev2 @ fst run, snd run)))"

subsection \<open>\<^verbatim>\<open>createSolver\<close>\<close>

text \<open>
  The four template instantiations and the four preprocessor symbols of the build that
  enable them. A \<^verbatim>\<open>std::shared_ptr\<close> is an option: \<open>None\<close> is \<^verbatim>\<open>nullptr\<close>.
\<close>

datatype backend = Serial | OpenMP | Cuda | HIP

record build =
  KOKKOS_ENABLE_SERIAL :: bool
  KOKKOS_ENABLE_OPENMP :: bool
  KOKKOS_ENABLE_CUDA :: bool
  KOKKOS_ENABLE_HIP :: bool

definition make_shared ::
  "backend \<Rightarrow> 'e list \<times> (error + 's) \<Rightarrow> 'e list \<times> (error + (backend \<times> 's) option)" where
  "make_shared b r = (fst r, case snd r of Inl e \<Rightarrow> Inl e | Inr s \<Rightarrow> Inr (Some (b, s)))"

definition createSolver ::
  "build \<Rightarrow> (backend \<Rightarrow> ('m, 'p, 'l, 'g, 'pt, 'f, 'r) collab) \<Rightarrow> string
     \<Rightarrow> ('pt, 'f, 'r) solver_args
     \<Rightarrow> ('m, 'p, 'r) event list \<times> (error + (backend \<times> ('m, 'p, 'l, 'pt, 'r) solver) option)" where
  "createSolver B K device a =
     (if device = ''serial'' then
        (if KOKKOS_ENABLE_SERIAL B then make_shared Serial (Solver (K Serial) a)
         else ([], Inl (RuntimeError ''Serial Backend Not Enabled'')))
      else if device = ''openmp'' then
        (if KOKKOS_ENABLE_OPENMP B then make_shared OpenMP (Solver (K OpenMP) a)
         else ([], Inl (RuntimeError ''OpenMP Backend Not Enabled'')))
      else if device = ''cuda'' then
        (if KOKKOS_ENABLE_CUDA B then make_shared Cuda (Solver (K Cuda) a)
         else ([], Inl (RuntimeError ''CUDA Backend Not Enabled'')))
      else if device = ''hip'' then
        (if KOKKOS_ENABLE_HIP B then make_shared HIP (Solver (K HIP) a)
         else ([], Inl (RuntimeError ''HIP Backend Not Enabled'')))
      else ([], Inl (RuntimeError ''invalid backend'')))"

subsection \<open>Values of the type \<^verbatim>\<open>double\<close>\<close>

text \<open>
  A rational is a value of the type when rounding leaves it as it is: it has at most 53
  significant bits at an exponent of the format, and it is below \<open>2^1024\<close>.
\<close>

definition is_double :: "rat \<Rightarrow> bool" where
  "is_double q = (rnd q = Finite q)"

text \<open>
  The operands for which the division of IEEE 754 signals a division by zero: a finite
  dividend other than zero and a divisor that is zero. The result is then an infinity.
\<close>

definition divide_by_zero :: "double \<Rightarrow> double \<Rightarrow> bool" where
  "divide_by_zero x y = (x \<noteq> NaN \<and> \<not> is_inf x \<and> \<not> is_zero x \<and> is_zero y)"

subsection \<open>What a run shows\<close>

text \<open>
  The calls of one iteration, by name: the progress notice on rank 0, the six calls that
  advance and rebalance the simulation, the snapshot. Both conditions are the
  \<^verbatim>\<open>0 == t % write_freq\<close> of the source. Before the loop come the calls of the first
  snapshot and the two divisions.
\<close>

definition core_calls :: "string list" where
  "core_calls = [''step'', ''numParticle'', ''createBalancedGlobalGrid'', ''newGlobalGrid'',
                 ''updateMesh'', ''communicateParticles'']"

definition snapshot_calls :: "string list" where
  "snapshot_calls = [''writeTimeStep'', ''writeDomain'', ''writeDomain'']"

definition division_calls :: "string list" where
  "division_calls = [''operator/'', ''operator/'']"

definition iteration_calls :: "int \<Rightarrow> int \<Rightarrow> int \<Rightarrow> string list" where
  "iteration_calls rank write_freq t =
     (if rank = 0 \<and> rem t write_freq = Inr 0 then [''printf''] else [])
     @ core_calls
     @ (if rem t write_freq = Inr 0 then snapshot_calls else [])"

text \<open>
  The step indices passed to \<^verbatim>\<open>writeTimeStep\<close> and to \<^verbatim>\<open>writeDomain\<close>, and the
  number of calls of \<^verbatim>\<open>TimeIntegrator::step\<close>, in a list of events.
\<close>

fun snapshot_index :: "('m, 'p, 'r) event \<Rightarrow> int list" where
  "snapshot_index (WriteTimeStep i _ _) = [i]"
| "snapshot_index _ = []"

fun domain_index :: "('m, 'p, 'r) event \<Rightarrow> int list" where
  "domain_index (WriteDomain i _ _) = [i]"
| "domain_index _ = []"

fun integrator_step :: "('m, 'p, 'r) event \<Rightarrow> unit list" where
  "integrator_step (Step _ _ _ _) = [()]"
| "integrator_step _ = []"

definition snapshot_indices :: "('m, 'p, 'r) event list \<Rightarrow> int list" where
  "snapshot_indices evs = concat (map snapshot_index evs)"

definition domain_indices :: "('m, 'p, 'r) event list \<Rightarrow> int list" where
  "domain_indices evs = concat (map domain_index evs)"

definition integrator_steps :: "('m, 'p, 'r) event list \<Rightarrow> nat" where
  "integrator_steps evs = length (concat (map integrator_step evs))"



text \<open>
  The device strings \<^verbatim>\<open>createSolver\<close> compares with, the symbol that enables each
  backend and the message thrown when it is not defined.
\<close>

definition recognized :: "string \<Rightarrow> backend option" where
  "recognized device =
     (if device = ''serial'' then Some Serial
      else if device = ''openmp'' then Some OpenMP
      else if device = ''cuda'' then Some Cuda
      else if device = ''hip'' then Some HIP
      else None)"

fun enabled :: "build \<Rightarrow> backend \<Rightarrow> bool" where
  "enabled B Serial = KOKKOS_ENABLE_SERIAL B"
| "enabled B OpenMP = KOKKOS_ENABLE_OPENMP B"
| "enabled B Cuda = KOKKOS_ENABLE_CUDA B"
| "enabled B HIP = KOKKOS_ENABLE_HIP B"

fun not_enabled_message :: "backend \<Rightarrow> string" where
  "not_enabled_message Serial = ''Serial Backend Not Enabled''"
| "not_enabled_message OpenMP = ''OpenMP Backend Not Enabled''"
| "not_enabled_message Cuda = ''CUDA Backend Not Enabled''"
| "not_enabled_message HIP = ''HIP Backend Not Enabled''"

subsection \<open>The iteration in the words of the specification\<close>

text \<open>
  Section 2 of the specification gives the control flow of a time step as "Driver ->
  Integrator (needs Particle Store, Grid Manager) -> Load Balancer (needs Grid Manager,
  workload) -> Grid Manager rebuild -> Particle Store migration -> next step", and
  section 4.5 as "run Integrator step with \<^verbatim>\<open>delta_t\<close>, gravity, BoundaryCondition;
  sample workload, ask Load Balancer for a new partition, rebuild Grid Manager with it,
  migrate particles to match". \<open>spec_iteration\<close> is this sequence as a function of the
  members. It is written from these sentences, not from the loop of the source, and is
  compared with the loop in the claims. Each operation takes what the one before it has
  produced: the integrator step runs on the particles and the mesh of the start of the
  iteration, with the boundary condition held by the solver; the workload is the number
  of particles after that step; the load balancer computes the new partition from this
  workload; the mesh is rebuilt with this partition; the particle store is updated to the
  rebuilt mesh, and its particles are then migrated on the rebuilt mesh with the halo
  width \<open>halo\<close>.
\<close>

definition spec_iteration ::
  "('m, 'p, 'l, 'g, 'pt, 'f, 'r) collab \<Rightarrow> double \<Rightarrow> int \<Rightarrow> ('m, 'p, 'l, 'pt, 'r) solver
     \<Rightarrow> ('m, 'p, 'l, 'pt, 'r) solver" where
  "spec_iteration K dlt halo s =
     (let stepped = TimeIntegrator_step K (m_mesh s) (m_pm s) dlt (m_gravity s) (m_bc s);
          workload = size_to_double (numParticle K stepped);
          balanced = createBalancedGlobalGrid K (m_lb s) (m_mesh s) (m_partitioner s) workload;
          rebuilt = newGlobalGrid K (m_mesh s) (snd balanced);
          updated = updateMesh K stepped rebuilt;
          migrated = communicateParticles K rebuilt updated halo
      in s\<lparr>m_mesh := rebuilt, m_pm := migrated, m_lb := fst balanced\<rparr>)"

text \<open>
  The events of the iteration \<open>t\<close> in that order, for the members \<open>s\<close> and the local
  \<^verbatim>\<open>time\<close> at its start: the progress notice when it is due on rank 0, the six
  operations, and last the snapshot when it is due, written from the members after the
  migration.
\<close>

definition spec_iteration_events ::
  "('m, 'p, 'l, 'g, 'pt, 'f, 'r) collab \<Rightarrow> int \<Rightarrow> int \<Rightarrow> double \<Rightarrow> int
     \<Rightarrow> ('m, 'p, 'l, 'pt, 'r) solver \<Rightarrow> double \<Rightarrow> ('m, 'p, 'r) event list" where
  "spec_iteration_events K write_freq num_step dlt t s time =
     (if m_rank s = 0 \<and> rem t write_freq = Inr 0 then [Printf (t + 1) num_step] else [])
     @ [Step (m_mesh s) dlt (m_gravity s) (m_bc s), NumParticle,
        CreateBalancedGlobalGrid
          (size_to_double (numParticle K
             (TimeIntegrator_step K (m_mesh s) (m_pm s) dlt (m_gravity s) (m_bc s)))),
        NewGlobalGrid, UpdateMesh, CommunicateParticles (m_halo_min s)]
     @ (if rem t write_freq = Inr 0
        then write_snapshot K (spec_iteration K dlt (m_halo_min s) s) (t + 1) time else [])"

text \<open>
  The members and the local \<^verbatim>\<open>time\<close> after \<open>k\<close> such iterations, and the events of a
  loop of \<open>num_step\<close> of them.
\<close>

definition spec_state ::
  "('m, 'p, 'l, 'g, 'pt, 'f, 'r) collab \<Rightarrow> double \<Rightarrow> nat \<Rightarrow> ('m, 'p, 'l, 'pt, 'r) solver
     \<Rightarrow> ('m, 'p, 'l, 'pt, 'r) solver" where
  "spec_state K dlt k s = (spec_iteration K dlt (m_halo_min s) ^^ k) s"

definition spec_time :: "double \<Rightarrow> nat \<Rightarrow> double" where
  "spec_time dlt k = ((\<lambda>time. fadd time dlt) ^^ k) (Finite 0)"

definition spec_run ::
  "('m, 'p, 'l, 'g, 'pt, 'f, 'r) collab \<Rightarrow> int \<Rightarrow> int \<Rightarrow> double
     \<Rightarrow> ('m, 'p, 'l, 'pt, 'r) solver \<Rightarrow> ('m, 'p, 'r) event list" where
  "spec_run K write_freq num_step dlt s =
     concat (map (\<lambda>k. spec_iteration_events K write_freq num_step dlt (int k)
                        (spec_state K dlt k s) (spec_time dlt k))
               [0..<nat num_step])"

subsection \<open>The grid manager of the specification\<close>


subsection \<open>A small instance of the collaborators\<close>

text \<open>
  To run the driver on concrete inputs: the mesh is reduced to the offset of its node
  indices, the problem manager to its number of particles, the load balancer to the
  number of partitions it has computed. A rebuild moves the mesh by \<open>shift\<close> nodes for
  every partition: the runs below use \<open>demo 0\<close>, whose rebuild leaves the mesh where it
  is.
\<close>

definition demo :: "int \<Rightarrow> (int, nat, nat, int, unit, unit, unit) collab" where
  "demo shift =
     \<lparr>Mesh_ctor = (\<lambda>box cells per pt h hmin c.
         if h < hmin then Inl (CollaboratorError ''halo'') else Inr 0),
      minDomainGlobalNodeIndex = (\<lambda>m. [m, m, m]),
      maxDomainGlobalNodeIndex = (\<lambda>m. [m + 8, m + 8, m + 8]),
      cellSize = (\<lambda>m. Finite 1),
      ProblemManager_ctor = (\<lambda>m f ppc b d g k. 4),
      MPI_Comm_rank = (\<lambda>c. 0),
      LoadBalancer_ctor = (\<lambda>c m w. 0),
      getVertices = (\<lambda>l. []),
      getInternalVertices = (\<lambda>l. []),
      TimeIntegrator_step = (\<lambda>m p dt g b. p),
      numParticle = (\<lambda>p. p),
      createBalancedGlobalGrid = (\<lambda>l m pt w. (l + 1, 1)),
      newGlobalGrid = (\<lambda>m g. m + shift * g),
      updateMesh = (\<lambda>p m. p),
      communicateParticles = (\<lambda>m p h. p)\<rparr>"

definition demo_args :: "(unit, unit, unit) solver_args" where
  "demo_args =
     \<lparr>comm = 0,
      global_bounding_box = [Finite 0, Finite 0, Finite 0, Finite 1, Finite 1, Finite 1],
      global_num_cell = [8, 8, 8], periodic = [False, False, False], partitioner = (),
      halo_cell_width = 3, create_functor = (), particles_per_cell = 2,
      bulk_modulus = Finite 1, density = Finite 1, gamma = Finite 1, kappa = Finite 1,
      delta_t = Finite 1, gravity = Finite 0,
      bc = \<lparr>boundary = (), min_bc = [7, 7, 7], max_bc = [9, 9, 9]\<rparr>\<rparr>"

definition demo_solver :: "(int, nat, nat, unit, unit) solver" where
  "demo_solver =
     \<lparr>m_dt = Finite 1, m_gravity = Finite 0,
      m_bc = \<lparr>boundary = (), min_bc = [0, 0, 0], max_bc = [8, 8, 8]\<rparr>,
      m_halo_min = 3, m_mesh = 0, m_pm = 4, m_rank = 0, m_comm = 0, m_partitioner = (),
      m_lb = 0\<rparr>"

definition demo_build :: build where
  "demo_build = \<lparr>KOKKOS_ENABLE_SERIAL = True, KOKKOS_ENABLE_OPENMP = True,
                  KOKKOS_ENABLE_CUDA = False, KOKKOS_ENABLE_HIP = False\<rparr>"

subsection \<open>An instance that records the operations\<close>

text \<open>
  To see on a concrete run which operation was applied to what: the mesh keeps the global
  cell counts and the minimum halo width it was constructed with and the list of the
  partitions it was rebuilt with, the latest first; a partition is the number the load
  balancer gave it and the workload it was computed from; the problem manager is the list
  of the operations applied to it, each with the mesh (and the time increment and boundary
  condition, or the halo width) it was applied with, and it reports the length of this
  list as its number of particles, so that every iteration samples another workload. The
  bounds the mesh reports are derived from its cell counts.
\<close>

record recorded_mesh =
  cell_counts :: "int list"
  minimum_halo :: int
  partitions :: "(nat \<times> double) list"

datatype operation =
    Integrated recorded_mesh double "unit BoundaryCondition"
  | Updated recorded_mesh
  | Migrated recorded_mesh int

definition recording ::
  "(recorded_mesh, operation list, nat, nat \<times> double, unit, unit, unit) collab" where
  "recording =
     \<lparr>Mesh_ctor = (\<lambda>box cells per pt h hmin c.
         if h < hmin then Inl (CollaboratorError ''halo'')
         else Inr \<lparr>cell_counts = cells, minimum_halo = hmin, partitions = []\<rparr>),
      minDomainGlobalNodeIndex = (\<lambda>m. map (\<lambda>c. 0) (cell_counts m)),
      maxDomainGlobalNodeIndex = (\<lambda>m. cell_counts m),
      cellSize = (\<lambda>m. Finite 1),
      ProblemManager_ctor = (\<lambda>m f ppc b d g k. []),
      MPI_Comm_rank = (\<lambda>c. 0),
      LoadBalancer_ctor = (\<lambda>c m w. 0),
      getVertices = (\<lambda>l. []),
      getInternalVertices = (\<lambda>l. []),
      TimeIntegrator_step = (\<lambda>m p dt g b. p @ [Integrated m dt b]),
      numParticle = (\<lambda>p. length p),
      createBalancedGlobalGrid = (\<lambda>l m pt w. (Suc l, (Suc l, w))),
      newGlobalGrid = (\<lambda>m g. m\<lparr>partitions := g # partitions m\<rparr>),
      updateMesh = (\<lambda>p m. p @ [Updated m]),
      communicateParticles = (\<lambda>m p h. p @ [Migrated m h])\<rparr>"

text \<open>
  The mesh this instance constructs from \<open>demo_args\<close> after it was rebuilt with the
  partitions \<open>gs\<close>, the boundary condition the constructor stores for it, the solver
  with the load balancer \<open>l\<close>, the mesh \<open>m\<close> and the problem manager \<open>p\<close>, and what
  the first and the second iteration of a run with time increment 1 append to the problem
  manager.
\<close>

definition recorded :: "(nat \<times> double) list \<Rightarrow> recorded_mesh" where
  "recorded gs = \<lparr>cell_counts = [8, 8, 8], minimum_halo = 3, partitions = gs\<rparr>"

definition recorded_bc :: "unit BoundaryCondition" where
  "recorded_bc = \<lparr>boundary = (), min_bc = [0, 0, 0], max_bc = [8, 8, 8]\<rparr>"

definition recording_solver ::
  "nat \<Rightarrow> recorded_mesh \<Rightarrow> operation list \<Rightarrow> (recorded_mesh, operation list, nat, unit, unit) solver" where
  "recording_solver l m p =
     \<lparr>m_dt = Finite 1, m_gravity = Finite 0, m_bc = recorded_bc, m_halo_min = 3, m_mesh = m,
      m_pm = p, m_rank = 0, m_comm = 0, m_partitioner = (), m_lb = l\<rparr>"

definition first_iteration :: "operation list" where
  "first_iteration =
     [Integrated (recorded []) (Finite 1) recorded_bc,
      Updated (recorded [(1, Finite 1)]),
      Migrated (recorded [(1, Finite 1)]) 3]"

definition second_iteration :: "operation list" where
  "second_iteration =
     [Integrated (recorded [(1, Finite 1)]) (Finite 1) recorded_bc,
      Updated (recorded [(2, Finite 4), (1, Finite 1)]),
      Migrated (recorded [(2, Finite 4), (1, Finite 1)]) 3]"

subsection \<open>The particle store across the processes\<close>

text \<open>
  Modelled from the spec: the particle store of all processes, its particles and the
  partition. \<^verbatim>\<open>ProblemManager\<close> is used by the driver but is not part of the sources. The
  definitions follow section 3 of the specification: a particle is a position, a
  velocity, a deformation measure, a mass and its material parameters; a partition maps
  every rank to an axis-aligned box of global cell indices; a particle is owned by the
  process whose box contains the cell of its position. The state is the list of the
  particle lists of all processes, by rank.
\<close>

type_synonym vec = "rat \<times> rat \<times> rat"

record particle =
  position :: vec
  velocity :: vec
  deformation :: rat
  mass :: rat
  material :: "rat \<times> rat \<times> rat \<times> rat"

record global_domain =
  low_corner :: vec
  cell_width :: rat

type_synonym box = "(int \<times> int) \<times> (int \<times> int) \<times> (int \<times> int)"

datatype store_error = InvariantViolation

definition cell_of :: "global_domain \<Rightarrow> vec \<Rightarrow> int \<times> int \<times> int" where
  "cell_of gd x =
     (case (x, low_corner gd) of
        ((x1, x2, x3), (l1, l2, l3)) \<Rightarrow>
          (\<lfloor>(x1 - l1) / cell_width gd\<rfloor>, \<lfloor>(x2 - l2) / cell_width gd\<rfloor>,
           \<lfloor>(x3 - l3) / cell_width gd\<rfloor>))"

definition in_box :: "box \<Rightarrow> int \<times> int \<times> int \<Rightarrow> bool" where
  "in_box b c =
     (case (b, c) of
        (((lo1, hi1), (lo2, hi2), (lo3, hi3)), (c1, c2, c3)) \<Rightarrow>
          lo1 \<le> c1 \<and> c1 < hi1 \<and> lo2 \<le> c2 \<and> c2 < hi2 \<and> lo3 \<le> c3 \<and> c3 < hi3)"

definition ownsPosition :: "global_domain \<Rightarrow> box \<Rightarrow> particle \<Rightarrow> bool" where
  "ownsPosition gd b p = in_box b (cell_of gd (position p))"

definition owner :: "global_domain \<Rightarrow> box list \<Rightarrow> particle \<Rightarrow> nat option" where
  "owner gd part p =
     (case filter (\<lambda>r. ownsPosition gd (part ! r) p) [0..<length part] of
        [] \<Rightarrow> None
      | r # _ \<Rightarrow> Some r)"

text \<open>
  Modelled from the spec: \<^verbatim>\<open>ProblemManager::communicateParticles\<close>, which is not part of
  the sources, after \<open>migrate\<close> of section 4.2: every particle that is no longer inside
  the box of its process under the new partition is sent to the owner that the partition
  determines, and every process receives the particles sent to it. A particle that no
  process owns is a fatal invariant violation (sections 4.2 and 7), as is a partition that
  does not give every process a box.
\<close>

definition staying :: "global_domain \<Rightarrow> box list \<Rightarrow> particle list list \<Rightarrow> nat \<Rightarrow> particle list" where
  "staying gd part st r = filter (\<lambda>p. ownsPosition gd (part ! r) p) (st ! r)"

definition leaving :: "global_domain \<Rightarrow> box list \<Rightarrow> particle list list \<Rightarrow> nat \<Rightarrow> particle list" where
  "leaving gd part st r = filter (\<lambda>p. \<not> ownsPosition gd (part ! r) p) (st ! r)"

definition sent :: "global_domain \<Rightarrow> box list \<Rightarrow> particle list list \<Rightarrow> nat \<Rightarrow> nat \<Rightarrow> particle list" where
  "sent gd part st s r = filter (\<lambda>p. owner gd part p = Some r) (leaving gd part st s)"

definition migrate ::
  "global_domain \<Rightarrow> box list \<Rightarrow> int \<Rightarrow> particle list list \<Rightarrow> store_error + particle list list" where
  "migrate gd part min_halo st =
     (if length part \<noteq> length st \<or> list_ex (\<lambda>p. owner gd part p = None) (concat st)
      then Inl InvariantViolation
      else Inr (map (\<lambda>r. staying gd part st r
                         @ concat (map (\<lambda>s. sent gd part st s r) [0..<length st]))
                  [0..<length st]))"

text \<open>
  Modelled from the spec: \<^verbatim>\<open>TimeIntegrator::step\<close>, which is not part of the sources.
  The integrator step of section 4.3 ends with \<^verbatim>\<open>gridToParticle\<close>, which updates the
  position, the velocity and the deformation of each particle from the grid: \<open>upd\<close> is
  this update, for the state of all processes, a rank and a particle of that rank.
\<close>

definition integrate ::
  "(particle list list \<Rightarrow> nat \<Rightarrow> particle \<Rightarrow> particle) \<Rightarrow> particle list list \<Rightarrow> particle list list" where
  "integrate upd st = map (\<lambda>r. map (upd st r) (st ! r)) [0..<length st]"

definition particleCount :: "particle list list \<Rightarrow> nat" where
  "particleCount st = sum_list (map length st)"

text \<open>Two processes side by side along the first axis, and three particles moving along it.\<close>

definition demo_domain :: global_domain where
  "demo_domain = \<lparr>low_corner = (0, 0, 0), cell_width = 1\<rparr>"

definition demo_partition :: "box list" where
  "demo_partition = [((0, 2), (0, 1), (0, 1)), ((2, 4), (0, 1), (0, 1))]"

definition demo_particle :: "rat \<Rightarrow> particle" where
  "demo_particle x =
     \<lparr>position = (x, 1 / 2, 1 / 2), velocity = (1, 0, 0), deformation = 1, mass = 1,
      material = (1, 1, 1, 1)\<rparr>"

definition demo_store :: "particle list list" where
  "demo_store = [[demo_particle (1 / 2), demo_particle (3 / 2)], [demo_particle (5 / 2)]]"

definition demo_update :: "particle list list \<Rightarrow> nat \<Rightarrow> particle \<Rightarrow> particle" where
  "demo_update st r p =
     (case (position p, velocity p) of
        ((x1, x2, x3), (v1, v2, v3)) \<Rightarrow> p\<lparr>position := (x1 + v1, x2 + v2, x3 + v3)\<rparr>)"

section \<open>Properties of the arithmetic\<close>

lemma two_powi_pos: "0 < (2::rat) powi k"
  by (simp add: power_int_def)

lemma two_powi_add: "(2::rat) powi (j + k) = 2 powi j * 2 powi k"
  by (simp add: power_int_add)

lemma two_powi_less: "j < k \<Longrightarrow> (2::rat) powi j < 2 powi k"
  by (rule power_int_strict_increasing) simp_all

lemma two_powi_le: "j \<le> k \<Longrightarrow> (2::rat) powi j \<le> 2 powi k"
  by (rule power_int_increasing) simp_all

lemma bitlen_powi:
  assumes "0 < a"
  shows "(2::rat) powi (bitlen a - 1) \<le> of_int a" and "(of_int a :: rat) < 2 powi bitlen a"
proof -
  from bitlen_bounds[OF assms]
  have lo: "2 ^ nat (bitlen a - 1) \<le> a" and hi: "a < 2 ^ nat (bitlen a)" by simp_all
  have pos: "1 \<le> bitlen a"
  proof (rule ccontr)
    assume "\<not> 1 \<le> bitlen a"
    then have "bitlen a = 0" using bitlen_nonneg[of a] by linarith
    with hi assms show False by simp
  qed
  have "(2::rat) powi (bitlen a - 1) = 2 ^ nat (bitlen a - 1)"
    using pos by (simp add: power_int_def)
  also have "\<dots> = of_int (2 ^ nat (bitlen a - 1))" by simp
  also have "\<dots> \<le> of_int a" using lo by (simp only: of_int_le_iff)
  finally show "(2::rat) powi (bitlen a - 1) \<le> of_int a" .
  have "(of_int a :: rat) < of_int (2 ^ nat (bitlen a))" using hi by (simp only: of_int_less_iff)
  also have "\<dots> = 2 ^ nat (bitlen a)" by simp
  also have "\<dots> = 2 powi bitlen a" using pos by (simp add: power_int_def)
  finally show "(of_int a :: rat) < 2 powi bitlen a" .
qed

lemma ilog2_bounds:
  assumes "0 < q"
  shows "2 powi ilog2 q \<le> q" and "q < 2 powi (ilog2 q + 1)"
proof -
  obtain a b where qo: "quotient_of q = (a, b)" by (cases "quotient_of q") auto
  have bpos: "0 < b" using quotient_of_denom_pos[OF qo] .
  have q: "q = of_int a / of_int b" using quotient_of_div[OF qo] .
  have apos: "0 < a" using assms bpos q by (simp add: zero_less_divide_iff)
  define A B :: rat where "A = of_int a" and "B = of_int b"
  define k where "k = bitlen a - bitlen b"
  have Bpos: "0 < B" and Apos: "0 < A" using bpos apos by (simp_all add: A_def B_def)
  have qAB: "q = A / B" using q by (simp add: A_def B_def)
  have a1: "2 powi (bitlen a - 1) \<le> A" and a2: "A < 2 powi bitlen a"
    using bitlen_powi[OF apos] by (simp_all add: A_def)
  have b1: "2 powi (bitlen b - 1) \<le> B" and b2: "B < 2 powi bitlen b"
    using bitlen_powi[OF bpos] by (simp_all add: B_def)
  have il: "ilog2 q = (if B * 2 powi k \<le> A then k else k - 1)"
    by (simp add: ilog2_def qo Let_def A_def B_def k_def)
  have e1: "(2::rat) powi bitlen a = 2 powi (k + 1) * 2 powi (bitlen b - 1)"
    unfolding k_def two_powi_add[symmetric] by simp
  have e2: "(2::rat) powi (bitlen a - 1) = 2 powi (k - 1) * 2 powi bitlen b"
    unfolding k_def two_powi_add[symmetric] by simp
  have up: "A < 2 powi (k + 1) * B"
  proof -
    have "A < 2 powi (k + 1) * 2 powi (bitlen b - 1)" using a2 e1 by simp
    also have "\<dots> \<le> 2 powi (k + 1) * B"
      using b1 two_powi_pos[of "k + 1"] by (simp add: mult_left_mono)
    finally show ?thesis .
  qed
  have lo: "2 powi (k - 1) * B \<le> A"
  proof -
    have "2 powi (k - 1) * B \<le> 2 powi (k - 1) * 2 powi bitlen b"
      using b2 two_powi_pos[of "k - 1"] by (simp add: mult_left_mono)
    also have "\<dots> \<le> A" using a1 e2 by simp
    finally show ?thesis .
  qed
  have c1: "B * 2 powi k \<le> A \<Longrightarrow> 2 powi k \<le> A / B"
    using Bpos by (simp add: pos_le_divide_eq mult.commute)
  have c2: "2 powi (k - 1) \<le> A / B"
    using Bpos lo by (simp add: pos_le_divide_eq)
  have c3: "A / B < 2 powi (k + 1)"
    using Bpos up by (simp add: pos_divide_less_eq)
  have c4: "\<not> B * 2 powi k \<le> A \<Longrightarrow> A / B < 2 powi k"
    using Bpos by (simp add: pos_divide_less_eq mult.commute)
  show "2 powi ilog2 q \<le> q"
    unfolding il unfolding qAB using c1 c2 by simp
  show "q < 2 powi (ilog2 q + 1)"
    unfolding il unfolding qAB using c3 c4 by simp
qed

lemma ilog2_unique:
  assumes "2 powi k \<le> q" and "q < 2 powi (k + 1)"
  shows "ilog2 q = k"
proof -
  have qpos: "0 < q" using assms(1) two_powi_pos[of k] by linarith
  note b = ilog2_bounds[OF qpos]
  have "(2::rat) powi ilog2 q < 2 powi (k + 1)" using b(1) assms(2) by linarith
  then have 1: "ilog2 q < k + 1"
    by (metis not_less two_powi_le leD)
  have "(2::rat) powi k < 2 powi (ilog2 q + 1)" using b(2) assms(1) by linarith
  then have 2: "k < ilog2 q + 1"
    by (metis not_less two_powi_le leD)
  from 1 2 show ?thesis by linarith
qed

lemma ilog2_mono:
  assumes "0 < p" and "p \<le> q"
  shows "ilog2 p \<le> ilog2 q"
proof -
  have qpos: "0 < q" using assms by linarith
  have "(2::rat) powi ilog2 p < 2 powi (ilog2 q + 1)"
    using ilog2_bounds(1)[OF assms(1)] ilog2_bounds(2)[OF qpos] assms(2) by linarith
  then have "ilog2 p < ilog2 q + 1"
    by (metis not_less two_powi_le leD)
  then show ?thesis by linarith
qed

lemma round_even_err: "\<bar>of_int (round_even x) - x\<bar> \<le> 1 / 2"
proof -
  have "of_int \<lfloor>x\<rfloor> \<le> x" and "x < of_int \<lfloor>x\<rfloor> + 1" by linarith+
  then show ?thesis
    by (auto simp: round_even_def Let_def abs_le_iff)
qed

lemma round_even_of_int: "round_even (of_int m) = m"
  by (simp add: round_even_def Let_def)

lemma quantum_ge: "- 1074 \<le> quantum q" "ilog2 \<bar>q\<bar> - 52 \<le> quantum q"
  by (simp_all add: quantum_def)

lemma rndq_err:
  assumes "q \<noteq> 0"
  shows "\<bar>rndq q - q\<bar> \<le> 2 powi quantum q / 2"
proof -
  define e where "e = quantum q"
  define x where "x = q / 2 powi e"
  have p: "0 < (2::rat) powi e" by (rule two_powi_pos)
  have qx: "x * 2 powi e = q" using p by (simp add: x_def)
  have r: "rndq q = of_int (round_even x) * 2 powi e"
    using assms by (simp add: rndq_def e_def x_def)
  have "rndq q - q = (of_int (round_even x) - x) * 2 powi e"
    by (simp only: left_diff_distrib r qx)
  then have "\<bar>rndq q - q\<bar> = \<bar>of_int (round_even x) - x\<bar> * 2 powi e"
    using p by (simp add: abs_mult)
  also have "\<dots> \<le> (1 / 2) * 2 powi e"
    using round_even_err[of x] p by (intro mult_right_mono) simp_all
  finally show ?thesis by (simp add: e_def)
qed

lemma rndq_rel_err:
  assumes "2 powi (- 1022) \<le> \<bar>q\<bar>"
  shows "\<bar>rndq q - q\<bar> \<le> \<bar>q\<bar> * 2 powi (- 53)"
proof -
  have qpos: "0 < \<bar>q\<bar>" using assms two_powi_pos[of "- 1022"] by linarith
  then have q0: "q \<noteq> 0" by simp
  have "ilog2 (2 powi (- 1022)) = - 1022"
    by (rule ilog2_unique) (simp_all add: two_powi_le)
  then have "- 1022 \<le> ilog2 \<bar>q\<bar>"
    using ilog2_mono[OF two_powi_pos assms] by simp
  then have qu: "quantum q = ilog2 \<bar>q\<bar> - 52" by (simp add: quantum_def)
  have "(2::rat) powi quantum q / 2 = 2 powi (ilog2 \<bar>q\<bar> + (- 53))"
    unfolding qu by (simp add: power_int_diff)
  also have "\<dots> = 2 powi ilog2 \<bar>q\<bar> * 2 powi (- 53)" by (rule two_powi_add)
  also have "\<dots> \<le> \<bar>q\<bar> * 2 powi (- 53)"
    using ilog2_bounds(1)[OF qpos] two_powi_pos[of "- 53"] by (intro mult_right_mono) simp_all
  finally show ?thesis using rndq_err[OF q0] by linarith
qed

lemma rndq_exact:
  assumes "- 1074 \<le> e" and "\<bar>m\<bar> < 2 ^ 53"
  shows "rndq (of_int m * 2 powi e) = of_int m * 2 powi e"
proof (cases "m = 0")
  case True
  then show ?thesis by (simp add: rndq_def)
next
  case False
  define q :: rat where "q = of_int m * 2 powi e"
  have p: "0 < (2::rat) powi e" by (rule two_powi_pos)
  have q0: "q \<noteq> 0" using False p by (simp add: q_def)
  have aq: "\<bar>q\<bar> = of_int \<bar>m\<bar> * 2 powi e" using p by (simp add: q_def abs_mult)
  have "(of_int \<bar>m\<bar> :: rat) < of_int (2 ^ 53)" using assms(2) by (simp only: of_int_less_iff)
  then have "\<bar>q\<bar> < 2 powi 53 * 2 powi e" unfolding aq using p by (simp add: mult_strict_right_mono)
  then have up: "\<bar>q\<bar> < 2 powi (53 + e)" by (simp add: two_powi_add)
  have qpos: "0 < \<bar>q\<bar>" using q0 by simp
  have "(2::rat) powi ilog2 \<bar>q\<bar> < 2 powi (53 + e)"
    using ilog2_bounds(1)[OF qpos] up by linarith
  then have "ilog2 \<bar>q\<bar> < 53 + e" by (metis not_less two_powi_le leD)
  then have qe: "quantum q \<le> e" using assms(1) by (simp add: quantum_def)
  define d where "d = nat (e - quantum q)"
  define P :: rat where "P = 2 powi quantum q"
  have Ppos: "0 < P" unfolding P_def by (rule two_powi_pos)
  have "(2::rat) powi e = 2 powi (int d + quantum q)" using qe by (simp add: d_def)
  also have "\<dots> = 2 ^ d * P" by (simp only: two_powi_add power_int_of_nat P_def)
  finally have E: "(2::rat) powi e = 2 ^ d * P" .
  have qP: "q = of_int (m * 2 ^ d) * P" by (simp add: q_def E)
  then have "q / P = of_int (m * 2 ^ d)" using Ppos by simp
  then have "round_even (q / P) = m * 2 ^ d"
    by (simp only: round_even_of_int)
  then have "rndq q = of_int (m * 2 ^ d) * P"
    using q0 by (simp add: rndq_def P_def)
  then have "rndq q = q" using qP by simp
  then show ?thesis by (simp add: q_def)
qed

lemma rnd_Finite:
  assumes "q \<noteq> 0" and "rndq q = r" and "r \<noteq> 0" and "\<bar>r\<bar> < 2 powi 1024"
  shows "rnd q = Finite r"
  using assms by (simp add: rnd_def)

lemma rnd_of_int:
  assumes "\<bar>n\<bar> < 2 ^ 53"
  shows "rnd (of_int n) = Finite (of_int n)"
proof (cases "n = 0")
  case True
  then show ?thesis by (simp add: rnd_def)
next
  case False
  have r: "rndq (of_int n) = of_int n" using rndq_exact[of 0 n] assms by simp
  have "(of_int \<bar>n\<bar> :: rat) < of_int (2 ^ 53)" using assms by (simp only: of_int_less_iff)
  also have "\<dots> = 2 powi 53" by simp
  also have "\<dots> < 2 powi 1024" by (rule two_powi_less) simp
  finally have "\<bar>of_int n :: rat\<bar> < 2 powi 1024" by simp
  then show ?thesis using False r by (intro rnd_Finite) simp_all
qed

lemma rnd_Finite_rndq:
  assumes "rnd q = Finite r"
  shows "r = rndq q"
  using assms
  by (auto simp: rnd_def signed_inf_def signed_zero_def rndq_def split: if_splits)

lemma is_double_repr:
  assumes "is_double q"
  shows "q = of_int (round_even (q / 2 powi quantum q)) * 2 powi quantum q"
proof (cases "q = 0")
  case True
  then show ?thesis by (simp add: round_even_def)
next
  case False
  have "q = rndq q" using assms rnd_Finite_rndq by (simp add: is_double_def)
  then show ?thesis using False by (simp add: rndq_def)
qed

lemma two_powi_less_imp: "(2::rat) powi j < 2 powi k \<Longrightarrow> j < k"
  by (metis not_less two_powi_le leD)

lemma two_powi_neg_less_one: "k < 0 \<Longrightarrow> (2::rat) powi k < 1"
  using two_powi_less[of k 0] by simp

lemma double_ratio_below_one:
  assumes dt: "is_double t" and dd: "is_double d" and tpos: "0 < t" and lt: "t < d"
  shows "t \<le> d * (1 - 2 powi (- 53))"
proof -
  have dpos: "0 < d" using tpos lt by linarith
  define L M where "L = ilog2 t" and "M = ilog2 d"
  define et ed where "et = quantum t" and "ed = quantum d"
  define mt md where "mt = round_even (t / 2 powi et)" and "md = round_even (d / 2 powi ed)"
  have t: "t = of_int mt * 2 powi et" using is_double_repr[OF dt] by (simp add: mt_def et_def)
  have d: "d = of_int md * 2 powi ed" using is_double_repr[OF dd] by (simp add: md_def ed_def)
  have et: "et = max (L - 52) (- 1074)" using tpos by (simp add: et_def quantum_def L_def)
  have ed: "ed = max (M - 52) (- 1074)" using dpos by (simp add: ed_def quantum_def M_def)
  have LM: "L \<le> M" unfolding L_def M_def using ilog2_mono[OF tpos] lt by simp
  have tL: "2 powi L \<le> t" "t < 2 powi (L + 1)" using ilog2_bounds[OF tpos] by (simp_all add: L_def)
  have dM: "2 powi M \<le> d" "d < 2 powi (M + 1)" using ilog2_bounds[OF dpos] by (simp_all add: M_def)
  have c: "(0::rat) < 1 - 2 powi (- 53)" using two_powi_neg_less_one[of "- 53"] by linarith
  have mtpos: "0 < mt"
  proof -
    have "0 < (of_int mt :: rat) * 2 powi et" using tpos t by simp
    then have "0 < (of_int mt :: rat)" using two_powi_pos[of et] by (simp add: zero_less_mult_iff)
    then show ?thesis by simp
  qed
  show ?thesis
  proof (cases "L < M")
    case True
    have "(1::rat) \<le> of_int mt" using mtpos by simp
    then have "(2::rat) powi et \<le> t" unfolding t using two_powi_pos[of et] by simp
    then have "(2::rat) powi et < 2 powi (L + 1)" using tL(2) by linarith
    then have etL: "et < L + 1" by (rule two_powi_less_imp)
    define k where "k = nat (L + 1 - et)"
    have "(2::rat) powi (L + 1) = 2 powi (int k + et)" using etL by (simp add: k_def)
    also have "\<dots> = 2 ^ k * 2 powi et" by (simp only: two_powi_add power_int_of_nat)
    finally have P: "(2::rat) powi (L + 1) = 2 ^ k * 2 powi et" .
    have "of_int mt * (2::rat) powi et < 2 ^ k * 2 powi et" using tL(2) t P by simp
    then have "(of_int mt :: rat) < 2 ^ k" using two_powi_pos[of et] by simp
    then have "(of_int mt :: rat) < of_int (2 ^ k)" by simp
    then have "mt < 2 ^ k" by (simp only: of_int_less_iff)
    then have "mt \<le> 2 ^ k - 1" by simp
    then have "(of_int mt :: rat) \<le> of_int (2 ^ k - 1)" by (simp only: of_int_le_iff)
    then have "(of_int mt :: rat) \<le> 2 ^ k - 1" by simp
    then have "of_int mt * (2::rat) powi et \<le> (2 ^ k - 1) * 2 powi et"
      using two_powi_pos[of et] by (intro mult_right_mono) simp_all
    then have t1: "t \<le> 2 powi (L + 1) - 2 powi et" by (simp add: t[symmetric] P left_diff_distrib)
    have "(2::rat) powi (L + 1) * 2 powi (- 53) = 2 powi (L - 52)"
      by (simp only: two_powi_add[symmetric]) simp
    also have "\<dots> \<le> 2 powi et" by (rule two_powi_le) (simp add: et)
    finally have "t \<le> 2 powi (L + 1) - 2 powi (L + 1) * 2 powi (- 53)" using t1 by linarith
    then have "t \<le> 2 powi (L + 1) * (1 - 2 powi (- 53))" by (simp add: right_diff_distrib)
    also have "\<dots> \<le> 2 powi M * (1 - 2 powi (- 53))"
      using True c by (intro mult_right_mono two_powi_le) simp_all
    also have "\<dots> \<le> d * (1 - 2 powi (- 53))"
      using dM(1) c by (intro mult_right_mono) simp_all
    finally show ?thesis .
  next
    case False
    then have "L = M" using LM by simp
    then have e: "et = ed" by (simp add: et ed)
    have "(of_int mt :: rat) * 2 powi ed < of_int md * 2 powi ed" using lt t d e by simp
    then have "(of_int mt :: rat) < of_int md" using two_powi_pos[of ed] by simp
    then have "mt < md" by (simp only: of_int_less_iff)
    then have "mt + 1 \<le> md" by simp
    then have "(of_int (mt + 1) :: rat) \<le> of_int md" by (simp only: of_int_le_iff)
    then have "(of_int mt + 1) * (2::rat) powi ed \<le> of_int md * 2 powi ed"
      using two_powi_pos[of ed] by (intro mult_right_mono) simp_all
    then have d1: "t + 2 powi ed \<le> d" using t d e by (simp add: left_diff_distrib algebra_simps)
    have "d * 2 powi (- 53) \<le> 2 powi (M + 1) * 2 powi (- 53)"
      using dM(2) two_powi_pos[of "- 53"] by (intro mult_right_mono) simp_all
    also have "\<dots> = 2 powi (M - 52)" by (simp only: two_powi_add[symmetric]) simp
    also have "\<dots> \<le> 2 powi ed" by (rule two_powi_le) (simp add: ed)
    finally have "t \<le> d - d * 2 powi (- 53)" using d1 by linarith
    then show ?thesis by (simp add: right_diff_distrib)
  qed
qed

lemma rndq_below_one:
  assumes "0 < q" and "q \<le> 1 - 2 powi (- 53)"
  shows "0 \<le> rndq q" and "rndq q < 1"
proof -
  have q0: "q \<noteq> 0" using assms(1) by simp
  have "q < 1" using assms(2) two_powi_pos[of "- 53"] by linarith
  then have "q < 2 powi 0" by simp
  then have "(2::rat) powi ilog2 q < 2 powi 0" using ilog2_bounds(1)[OF assms(1)] by linarith
  then have "ilog2 q < 0" by (rule two_powi_less_imp)
  then have "quantum q \<le> - 53" using assms(1) by (simp add: quantum_def)
  then have "(2::rat) powi quantum q \<le> 2 powi (- 53)" by (rule two_powi_le)
  then have "\<bar>rndq q - q\<bar> \<le> 2 powi (- 53) / 2" using rndq_err[OF q0] by linarith
  then have "rndq q \<le> 1 - 2 powi (- 53) / 2" using assms(2) by linarith
  then show "rndq q < 1" using two_powi_pos[of "- 53"] by linarith
  define x where "x = q / 2 powi quantum q"
  have "0 < x" using assms(1) two_powi_pos[of "quantum q"] by (simp add: x_def)
  then have "- 1 < (of_int (round_even x) :: rat)" using round_even_err[of x] by linarith
  then have "(of_int (- 1) :: rat) < of_int (round_even x)" by simp
  then have "- 1 < round_even x" by (simp only: of_int_less_iff)
  then have "(0::rat) \<le> of_int (round_even x)" by simp
  then show "0 \<le> rndq q"
    using q0 two_powi_pos[of "quantum q"] by (simp add: rndq_def x_def)
qed

lemma fdiv_below_one:
  assumes "is_double t" and "is_double d" and "0 < t" and "t < d"
  shows "\<exists>r. fdiv (Finite t) (Finite d) = Finite r \<and> 0 \<le> r \<and> r < 1"
proof -
  define q where "q = t / d"
  have dpos: "0 < d" using assms by linarith
  have qpos: "0 < q" using assms(3) dpos by (simp add: q_def)
  have "q \<le> 1 - 2 powi (- 53)"
    using double_ratio_below_one[OF assms] dpos by (simp add: q_def pos_divide_le_eq mult.commute)
  note r = rndq_below_one[OF qpos this]
  have "\<bar>rndq q\<bar> < 1" using r by simp
  also have "(1::rat) < 2 powi 1024" using two_powi_less[of 0 1024] by simp
  finally have nov: "\<not> 2 powi 1024 \<le> \<bar>rndq q\<bar>" by simp
  have "fdiv (Finite t) (Finite d) = rnd q"
    using assms(3) dpos by (simp add: fdiv_def q_def)
  also have "\<dots> = Finite (rndq q)"
    using qpos nov by (simp add: rnd_def signed_zero_def)
  finally show ?thesis using r by blast
qed

lemma num_step_zero:
  assumes "is_double t" and "is_double d" and "0 < t" and "t < d"
  shows "num_step_of (Finite t) (Finite d) = Inr 0"
proof -
  obtain r where r: "fdiv (Finite t) (Finite d) = Finite r" "0 \<le> r" "r < 1"
    using fdiv_below_one[OF assms] by blast
  have "\<lfloor>r\<rfloor> = 0" using r(2,3) by linarith
  then show ?thesis using r by (simp add: num_step_of_def double_to_int_def trunc_def)
qed

lemma delta_t_zero_steps:
  assumes "0 < t"
  shows "delta_t_of (Finite t) 0 = PInf"
  using assms by (simp add: delta_t_of_def int_to_double_def fdiv_def signed_inf_def)

lemma rnd_1: "rnd 1 = Finite 1"
  using rnd_of_int[of 1] by simp

lemma rnd_numeral: "numeral k < (2::int) ^ 53 \<Longrightarrow> rnd (numeral k) = Finite (numeral k)"
  using rnd_of_int[of "numeral k"] by simp

lemma fdiv_Finite: "a \<noteq> 0 \<Longrightarrow> b \<noteq> 0 \<Longrightarrow> fdiv (Finite a) (Finite b) = rnd (a / b)"
  by (simp add: fdiv_def)

lemma fadd_Finite: "a + b \<noteq> 0 \<Longrightarrow> fadd (Finite a) (Finite b) = rnd (a + b)"
  by (simp add: fadd_def)

lemma size_to_double_numeral:
  "numeral k < (2::int) ^ 53 \<Longrightarrow> size_to_double (numeral k) = Finite (numeral k)"
  by (simp add: size_to_double_def rnd_numeral)

lemma num_step_of_int:
  assumes "0 < n" and "n < 2 ^ 31"
  shows "num_step_of (Finite (of_int n)) (Finite 1) = Inr n"
proof -
  have "\<bar>n\<bar> < 2 ^ 53" using assms by simp
  then have "rnd (of_int n) = Finite (of_int n)" by (rule rnd_of_int)
  then show ?thesis
    using assms by (simp add: num_step_of_def fdiv_Finite double_to_int_def trunc_def)
qed

lemma is_double_exact:
  assumes "- 1074 \<le> e" and "e \<le> 971" and "\<bar>m\<bar> < 2 ^ 53"
  shows "is_double (of_int m * 2 powi e)"
proof (cases "m = 0")
  case True
  then show ?thesis by (simp add: is_double_def rnd_def)
next
  case False
  define q :: rat where "q = of_int m * 2 powi e"
  have p: "0 < (2::rat) powi e" by (rule two_powi_pos)
  have q0: "q \<noteq> 0" using False p by (simp add: q_def)
  have r: "rndq q = q" unfolding q_def by (rule rndq_exact[OF assms(1,3)])
  have aq: "\<bar>q\<bar> = of_int \<bar>m\<bar> * 2 powi e" using p by (simp add: q_def abs_mult)
  have "(of_int \<bar>m\<bar> :: rat) < of_int (2 ^ 53)" using assms(3) by (simp only: of_int_less_iff)
  then have "\<bar>q\<bar> < 2 powi 53 * 2 powi e" unfolding aq using p by (simp add: mult_strict_right_mono)
  also have "\<dots> = 2 powi (53 + e)" by (simp only: two_powi_add)
  also have "\<dots> \<le> 2 powi 1024" using assms(2) by (intro two_powi_le) simp
  finally have "\<bar>q\<bar> < 2 powi 1024" .
  then have "rnd q = Finite q" using q0 r by (intro rnd_Finite) simp_all
  then show ?thesis by (simp add: is_double_def q_def)
qed

lemma rnd_value:
  assumes "rndq q = r" and "q \<noteq> 0" and "r \<noteq> 0" and "\<bar>r\<bar> < 2 ^ 64"
  shows "rnd q = Finite r"
proof -
  have "\<bar>r\<bar> < 2 powi 64" using assms(4) by simp
  also have "(2::rat) powi 64 < 2 powi 1024" by (rule two_powi_less) simp
  finally show ?thesis using assms(1-3) by (intro rnd_Finite) simp_all
qed

lemma rndq_4096_83: "rndq (4096 / 83) = 3472655134357973 / 70368744177664"
  by code_simp

lemma rndq_1_49: "rndq (1 / 49) = 5882252574524729 / 288230376151711744"
  by code_simp

lemma rndq_49_49:
  "rndq (5882252574524729 / 288230376151711744 * 49) = 9007199254740991 / 9007199254740992"
  by code_simp

lemma rndq_1_100: "rndq (1 / 100) = 5764607523034235 / 576460752303423488"
  by code_simp

lemma rndq_100: "rndq (1 / (5764607523034235 / 576460752303423488)) = 100"
  by code_simp

lemma rndq_100_100: "rndq (5764607523034235 / 576460752303423488 * 100) = 1"
  by code_simp

lemma rndq_0005:
  "rndq (5764607523034235 / 1152921504606846976) = 5764607523034235 / 1152921504606846976"
  by code_simp

lemma rndq_001:
  "rndq (5764607523034235 / 576460752303423488) = 5764607523034235 / 576460752303423488"
  by code_simp

lemma double_0005: "is_double (5764607523034235 / 1152921504606846976)"
  unfolding is_double_def by (rule rnd_value[OF rndq_0005]) simp_all

lemma double_001: "is_double (5764607523034235 / 576460752303423488)"
  unfolding is_double_def by (rule rnd_value[OF rndq_001]) simp_all

lemma rnd_001: "rnd (1 / 100) = Finite (5764607523034235 / 576460752303423488)"
  by (rule rnd_value[OF rndq_1_100]) simp_all

lemma num_step_of_Finite:
  assumes "num_step_of x dt = Inr n" and "n \<noteq> 0"
  shows "\<exists>q. fdiv x dt = Finite q \<and> n = trunc q"
  using assms
  by (auto simp: num_step_of_def double_to_int_def split: double.splits if_splits)

lemma delta_t_of_rndq:
  assumes "delta_t_of (Finite t) n = Finite d" and "n \<noteq> 0"
  shows "d = rndq (t / of_int n)"
proof (cases "t = 0")
  case True
  then show ?thesis
    using assms by (simp add: delta_t_of_def int_to_double_def fdiv_def signed_zero_def rndq_def
        split: if_splits)
next
  case False
  then have "fdiv (Finite t) (Finite (of_int n)) = rnd (t / of_int n)"
    using assms(2) by (simp add: fdiv_def)
  then show ?thesis
    using assms(1) by (simp add: delta_t_of_def int_to_double_def rnd_Finite_rndq)
qed

lemma corrected_step_error:
  assumes "delta_t_of (Finite t) n = Finite d" and "n \<noteq> 0"
    and "2 powi (- 1022) \<le> \<bar>t / of_int n\<bar>"
  shows "\<bar>d * of_int n - t\<bar> \<le> \<bar>t\<bar> * 2 powi (- 53)"
proof -
  define q where "q = t / of_int n"
  have n0: "(of_int n :: rat) \<noteq> 0" using assms(2) by simp
  have d: "d = rndq q" unfolding q_def by (rule delta_t_of_rndq[OF assms(1,2)])
  have t: "t = q * of_int n" using n0 by (simp add: q_def)
  have "d * of_int n - t = (rndq q - q) * of_int n"
    by (simp only: d left_diff_distrib t[symmetric])
  then have "\<bar>d * of_int n - t\<bar> = \<bar>rndq q - q\<bar> * \<bar>of_int n\<bar>"
    by (simp only: abs_mult)
  also have "\<dots> \<le> (\<bar>q\<bar> * 2 powi (- 53)) * \<bar>of_int n\<bar>"
    using rndq_rel_err[of q] assms(3) by (intro mult_right_mono) (simp_all add: q_def)
  also have "\<dots> = \<bar>q * of_int n\<bar> * 2 powi (- 53)"
    by (simp only: abs_mult mult.assoc mult.commute[of "2 powi (- 53)"])
  finally show ?thesis by (simp only: t[symmetric])
qed

lemma num_step_1_001: "num_step_of (Finite 1) (rnd (1 / 100)) = Inr 100"
proof -
  have "rnd (1 / (5764607523034235 / 576460752303423488)) = Finite 100"
    by (rule rnd_value[OF rndq_100]) simp_all
  then have "fdiv (Finite 1) (Finite (5764607523034235 / 576460752303423488)) = Finite 100"
    by (simp add: fdiv_def)
  then show ?thesis
    by (simp add: num_step_of_def rnd_001 double_to_int_def trunc_def)
qed

lemma delta_t_1_100: "delta_t_of (Finite 1) 100 = rnd (1 / 100)"
  by (simp add: delta_t_of_def int_to_double_def fdiv_def)

lemma product_001_100: "fmul (rnd (1 / 100)) (int_to_double 100) = Finite 1"
proof -
  have "rnd (5764607523034235 / 576460752303423488 * 100) = Finite 1"
    by (rule rnd_value[OF rndq_100_100]) simp_all
  then show ?thesis
    by (simp add: rnd_001 fmul_def int_to_double_def)
qed

lemma num_step_49: "num_step_of (Finite 1) (Finite (83 / 4096)) = Inr 49"
proof -
  have "rnd (4096 / 83) = Finite (3472655134357973 / 70368744177664)"
    by (rule rnd_value[OF rndq_4096_83]) simp_all
  then have "fdiv (Finite 1) (Finite (83 / 4096)) = Finite (3472655134357973 / 70368744177664)"
    by (simp add: fdiv_def)
  moreover have "\<lfloor>3472655134357973 / 70368744177664 :: rat\<rfloor> = 49"
    by (rule floor_unique) simp_all
  ultimately show ?thesis
    by (simp add: num_step_of_def double_to_int_def trunc_def)
qed

lemma delta_t_49:
  "delta_t_of (Finite 1) 49 = Finite (5882252574524729 / 288230376151711744)"
proof -
  have "rnd (1 / 49) = Finite (5882252574524729 / 288230376151711744)"
    by (rule rnd_value[OF rndq_1_49]) simp_all
  then show ?thesis
    by (simp add: delta_t_of_def int_to_double_def fdiv_def)
qed

lemma product_49:
  "fmul (Finite (5882252574524729 / 288230376151711744)) (int_to_double 49)
     = Finite (9007199254740991 / 9007199254740992)"
proof -
  have "rnd (5882252574524729 / 288230376151711744 * 49)
          = Finite (9007199254740991 / 9007199254740992)"
    by (rule rnd_value[OF rndq_49_49]) simp_all
  then show ?thesis
    by (simp add: fmul_def int_to_double_def)
qed

lemma rndq_83_4096: "rndq (83 / 4096) = 83 / 4096"
  by code_simp

lemma double_83_4096: "is_double (83 / 4096)"
  unfolding is_double_def by (rule rnd_value[OF rndq_83_4096]) simp_all

lemma normal_1_100: "(2::rat) powi (- 1022) \<le> \<bar>1 / of_int 100\<bar>"
proof -
  have "(2::rat) powi (- 1022) \<le> 2 powi (- 7)" by (rule two_powi_le) simp
  also have "\<dots> = 1 / 128" by (simp add: power_int_def power_divide)
  also have "\<dots> \<le> \<bar>1 / of_int 100\<bar>" by simp
  finally show ?thesis .
qed

lemma delta_t_of_2: "delta_t_of (Finite 2) 2 = Finite 1"
  by (simp add: delta_t_of_def int_to_double_def fdiv_Finite rnd_1)

lemma size_to_double_1: "size_to_double (Suc 0) = Finite 1"
  by (simp add: size_to_double_def rnd_1)

lemma size_to_double_4: "size_to_double (Suc (Suc (Suc (Suc 0)))) = Finite 4"
  using size_to_double_numeral[of "num.Bit0 (num.Bit0 num.One)"]
  by (simp add: eval_nat_numeral)

lemma rndq_half: "rndq (1 / 2) = 1 / 2"
  by code_simp

lemma fdiv_0005_001:
  "fdiv (Finite (5764607523034235 / 1152921504606846976))
        (Finite (5764607523034235 / 576460752303423488)) = Finite (1 / 2)"
proof -
  have "rnd (1 / 2) = Finite (1 / 2)"
    by (rule rnd_value[OF rndq_half]) simp_all
  then show ?thesis by (simp add: fdiv_def)
qed

lemma fdiv_1_001: "fdiv (Finite 1) (rnd (1 / 100)) = Finite 100"
proof -
  have "rnd (1 / (5764607523034235 / 576460752303423488)) = Finite 100"
    by (rule rnd_value[OF rndq_100]) simp_all
  then show ?thesis
    by (simp add: rnd_001 fdiv_def)
qed

section \<open>Properties of the loop\<close>

lemma rem_nonzero: "w \<noteq> 0 \<Longrightarrow> rem t w = Inr (sgn t * (\<bar>t\<bar> mod \<bar>w\<bar>))"
  by (simp add: rem_def)

lemma rem_zero: "rem t 0 = Inl IntegerDivisionByZero"
  by (simp add: rem_def)

lemma loop_body_defined:
  assumes "w \<noteq> 0"
  shows "\<exists>s1. snd (loop_body K w n dlt t st) = Inr (s1, fadd (snd st) dlt)
          \<and> m_rank s1 = m_rank (fst st) \<and> m_bc s1 = m_bc (fst st)
          \<and> m_halo_min s1 = m_halo_min (fst st) \<and> m_gravity s1 = m_gravity (fst st)
          \<and> m_dt s1 = m_dt (fst st)"
  using assms
  by (simp add: loop_body_def progress_notice_def rem_nonzero Let_def split: prod.splits)

lemma loop_body_calls:
  assumes "w \<noteq> 0"
  shows "map callee (fst (loop_body K w n dlt t st)) = iteration_calls (m_rank (fst st)) w t"
  using assms
  by (simp add: loop_body_def progress_notice_def rem_nonzero Let_def iteration_calls_def
      core_calls_def snapshot_calls_def write_snapshot_def split: prod.splits)

lemma solve_loop_calls:
  assumes "w \<noteq> 0"
  shows "map callee (fst (solve_loop K w n dlt t st))
           = concat (map (iteration_calls (m_rank (fst st)) w) [t..n - 1])
         \<and> (\<exists>st1. snd (solve_loop K w n dlt t st) = Inr st1)"
  using assms
proof (induction K w n dlt t st rule: solve_loop.induct)
  case (1 K w n dlt t st)
  show ?case
  proof (cases "t < n")
    case False
    then have "solve_loop K w n dlt t st = ([], Inr st)"
      by (subst solve_loop.simps) simp
    with False show ?thesis by (cases st) simp
  next
    case True
    obtain s1 where b: "snd (loop_body K w n dlt t st) = Inr (s1, fadd (snd st) dlt)"
      and r: "m_rank s1 = m_rank (fst st)"
      using loop_body_defined[OF \<open>w \<noteq> 0\<close>] by blast
    obtain ev where lb: "loop_body K w n dlt t st = (ev, Inr (s1, fadd (snd st) dlt))"
      using b by (cases "loop_body K w n dlt t st") auto
    have ev: "map callee ev = iteration_calls (m_rank (fst st)) w t"
      using loop_body_calls[OF \<open>w \<noteq> 0\<close>, of K n dlt t st] lb by simp
    have ih: "map callee (fst (solve_loop K w n dlt (t + 1) (s1, fadd (snd st) dlt)))
           = concat (map (iteration_calls (m_rank (fst st)) w) [t + 1..n - 1])
         \<and> (\<exists>st1. snd (solve_loop K w n dlt (t + 1) (s1, fadd (snd st) dlt)) = Inr st1)"
      using "1.IH"[OF True lb[symmetric] refl \<open>w \<noteq> 0\<close>] r by simp
    have up: "[t..n - 1] = t # [t + 1..n - 1]"
      using True by (simp add: upto_rec1)
    have unf: "solve_loop K w n dlt t st =
        (ev @ fst (solve_loop K w n dlt (t + 1) (s1, fadd (snd st) dlt)),
         snd (solve_loop K w n dlt (t + 1) (s1, fadd (snd st) dlt)))"
      by (subst solve_loop.simps) (simp add: True lb Let_def)
    show ?thesis
      using ih ev up by (simp add: unf)
  qed
qed

lemma loop_body_zero:
  "loop_body K 0 n dlt t st =
     (if m_rank (fst st) = 0 then []
      else [Step (m_mesh (fst st)) dlt (m_gravity (fst st)) (m_bc (fst st)), NumParticle,
            CreateBalancedGlobalGrid
              (size_to_double (numParticle K (TimeIntegrator_step K (m_mesh (fst st))
                 (m_pm (fst st)) dlt (m_gravity (fst st)) (m_bc (fst st))))),
            NewGlobalGrid, UpdateMesh, CommunicateParticles (m_halo_min (fst st))],
      Inl IntegerDivisionByZero)"
  by (simp add: loop_body_def progress_notice_def rem_zero Let_def)

lemma solve_loop_zero:
  "solve_loop K 0 n dlt t st =
     (if t < n then loop_body K 0 n dlt t st else ([], Inr st))"
  by (subst solve_loop.simps) (simp add: loop_body_zero)

text \<open>An invariant of the members and a property of the events, along the whole loop.\<close>

lemma solve_loop_invariant:
  assumes "\<And>t st. I (fst st) \<Longrightarrow>
            (\<forall>e \<in> set (fst (loop_body K w n dlt t st)). P e)
          \<and> (\<forall>st1. snd (loop_body K w n dlt t st) = Inr st1 \<longrightarrow> I (fst st1))"
    and "I (fst st)"
  shows "(\<forall>e \<in> set (fst (solve_loop K w n dlt t st)). P e)
       \<and> (\<forall>st1. snd (solve_loop K w n dlt t st) = Inr st1 \<longrightarrow> I (fst st1))"
  using assms
proof (induction K w n dlt t st rule: solve_loop.induct)
  case (1 K w n dlt t st)
  note step = "1.prems"(1) and init = "1.prems"(2)
  show ?case
  proof (cases "t < n")
    case False
    then have "solve_loop K w n dlt t st = ([], Inr st)"
      by (subst solve_loop.simps) simp
    with init show ?thesis by simp
  next
    case True
    obtain ev r where lb: "loop_body K w n dlt t st = (ev, r)"
      by (cases "loop_body K w n dlt t st") auto
    have b: "(\<forall>e \<in> set ev. P e) \<and> (\<forall>st1. r = Inr st1 \<longrightarrow> I (fst st1))"
      using step[OF init, of t] unfolding lb by simp
    show ?thesis
    proof (cases r)
      case (Inl e)
      then have "solve_loop K w n dlt t st = (ev, Inl e)"
        by (subst solve_loop.simps) (simp add: True lb)
      with b show ?thesis by simp
    next
      case (Inr st1)
      have unf: "solve_loop K w n dlt t st =
          (ev @ fst (solve_loop K w n dlt (t + 1) st1), snd (solve_loop K w n dlt (t + 1) st1))"
        by (subst solve_loop.simps) (simp add: True lb Inr Let_def)
      have i1: "I (fst st1)" using b Inr by simp
      have "(\<forall>e \<in> set (fst (solve_loop K w n dlt (t + 1) st1)). P e)
       \<and> (\<forall>st2. snd (solve_loop K w n dlt (t + 1) st1) = Inr st2 \<longrightarrow> I (fst st2))"
        using "1.IH"[OF True lb[symmetric] Inr step i1] by simp
      with b show ?thesis by (auto simp: unf)
    qed
  qed
qed

lemma solve_loop_project:
  assumes "w \<noteq> 0"
    and "\<And>t st. concat (map f (fst (loop_body K w n dlt t st))) = G (m_rank (fst st)) t"
  shows "concat (map f (fst (solve_loop K w n dlt t st)))
           = concat (map (G (m_rank (fst st))) [t..n - 1])"
  using assms
proof (induction K w n dlt t st rule: solve_loop.induct)
  case (1 K w n dlt t st)
  note nz = "1.prems"(1) and body = "1.prems"(2)
  show ?case
  proof (cases "t < n")
    case False
    then have "solve_loop K w n dlt t st = ([], Inr st)"
      by (subst solve_loop.simps) simp
    with False show ?thesis by simp
  next
    case True
    obtain s1 where b: "snd (loop_body K w n dlt t st) = Inr (s1, fadd (snd st) dlt)"
      and r: "m_rank s1 = m_rank (fst st)"
      using loop_body_defined[OF nz] by blast
    obtain ev where lb: "loop_body K w n dlt t st = (ev, Inr (s1, fadd (snd st) dlt))"
      using b by (cases "loop_body K w n dlt t st") auto
    have ev: "concat (map f ev) = G (m_rank (fst st)) t"
      using body[of t st] unfolding lb by simp
    have ih: "concat (map f (fst (solve_loop K w n dlt (t + 1) (s1, fadd (snd st) dlt))))
           = concat (map (G (m_rank (fst st))) [t + 1..n - 1])"
      using "1.IH"[OF True lb[symmetric] refl nz body] r by simp
    have up: "[t..n - 1] = t # [t + 1..n - 1]"
      using True by (simp add: upto_rec1)
    have unf: "solve_loop K w n dlt t st =
        (ev @ fst (solve_loop K w n dlt (t + 1) (s1, fadd (snd st) dlt)),
         snd (solve_loop K w n dlt (t + 1) (s1, fadd (snd st) dlt)))"
      by (subst solve_loop.simps) (simp add: True lb Let_def)
    show ?thesis
      using ih ev up by (simp add: unf)
  qed
qed

lemma solve_loop_completes:
  assumes "w \<noteq> 0"
  shows "\<exists>st1. snd (solve_loop K w n dlt t st) = Inr st1"
  using solve_loop_calls[OF assms] by blast

lemma loop_body_snapshot_index:
  assumes "w \<noteq> 0"
  shows "concat (map snapshot_index (fst (loop_body K w n dlt t st)))
           = (if rem t w = Inr 0 then [t + 1] else [])"
  using assms
  by (simp add: loop_body_def progress_notice_def rem_nonzero Let_def write_snapshot_def
      split: prod.splits)

lemma loop_body_integrator_step:
  assumes "w \<noteq> 0"
  shows "concat (map integrator_step (fst (loop_body K w n dlt t st))) = [()]"
  using assms
  by (simp add: loop_body_def progress_notice_def rem_nonzero Let_def write_snapshot_def
      split: prod.splits)

lemma concat_map_filter: "concat (map (\<lambda>t. if Q t then [g t] else []) xs) = map g (filter Q xs)"
  by (induction xs) auto

lemma solve_loop_snapshot_indices:
  assumes "w \<noteq> 0"
  shows "snapshot_indices (fst (solve_loop K w n dlt t st))
           = map (\<lambda>t. t + 1) (filter (\<lambda>t. rem t w = Inr 0) [t..n - 1])"
proof -
  have "concat (map snapshot_index (fst (solve_loop K w n dlt t st)))
      = concat (map ((\<lambda>r t. if rem t w = Inr 0 then [t + 1] else []) (m_rank (fst st))) [t..n - 1])"
    by (rule solve_loop_project[OF assms]) (simp add: loop_body_snapshot_index[OF assms])
  then show ?thesis
    by (simp add: snapshot_indices_def concat_map_filter)
qed

lemma solve_loop_integrator_steps:
  assumes "w \<noteq> 0"
  shows "integrator_steps (fst (solve_loop K w n dlt t st)) = nat (n - t)"
proof -
  have "concat (map integrator_step (fst (solve_loop K w n dlt t st)))
      = concat (map ((\<lambda>r t. [()]) (m_rank (fst st))) [t..n - 1])"
    by (rule solve_loop_project[OF assms]) (simp add: loop_body_integrator_step[OF assms])
  then show ?thesis
    by (simp add: integrator_steps_def length_concat comp_def sum_list_triv)
qed

lemma demo_Solver:
  "Solver (demo k) demo_args =
     ([MeshCtor 3 3, MinDomainGlobalNodeIndex, MaxDomainGlobalNodeIndex, ProblemManagerCtor,
       CommRank, LoadBalancerCtor], Inr demo_solver)"
  by (simp add: Solver_def demo_def demo_args_def demo_solver_def)

lemma loop_body_halo:
  assumes "m_halo_min (fst st) = 3"
  shows "(\<forall>e \<in> set (fst (loop_body K w n dlt t st)). \<forall>h. e = CommunicateParticles h \<longrightarrow> h = 3)
       \<and> (\<forall>st1. snd (loop_body K w n dlt t st) = Inr st1 \<longrightarrow> m_halo_min (fst st1) = 3)"
  using assms
  by (auto simp: loop_body_def progress_notice_def rem_def Let_def write_snapshot_def
      split: if_splits)

lemma write_snapshot_no_calls:
  "CommunicateParticles h \<notin> set (write_snapshot K s i tm)"
  "Step m dlt g b \<notin> set (write_snapshot K s i tm)"
  by (simp_all add: write_snapshot_def)

lemma solve_unfold:
  assumes "num_step_of t_final (m_dt s) = Inr n"
  shows "solve K s t_final w =
        (write_snapshot K s 0 (Finite 0)
           @ [Divide t_final (m_dt s) (fdiv t_final (m_dt s)),
              Divide t_final (int_to_double n) (delta_t_of t_final n)]
           @ fst (solve_loop K w n (delta_t_of t_final n) 0 (s, Finite 0)),
         snd (solve_loop K w n (delta_t_of t_final n) 0 (s, Finite 0)))"
  by (simp add: solve_def assms Let_def)

lemma solve_undefined:
  assumes "num_step_of t_final (m_dt s) = Inl e"
  shows "solve K s t_final w =
        (write_snapshot K s 0 (Finite 0) @ [Divide t_final (m_dt s) (fdiv t_final (m_dt s))],
         Inl e)"
  by (simp add: solve_def assms)

lemma solve_loop_halo:
  assumes h: "m_halo_min s = 3"
  shows "(\<forall>e \<in> set (fst (solve_loop K w n dlt 0 (s, tm))).
                 \<forall>h. e = CommunicateParticles h \<longrightarrow> h = 3)
       \<and> (\<forall>st1. snd (solve_loop K w n dlt 0 (s, tm)) = Inr st1
             \<longrightarrow> m_halo_min (fst st1) = 3)"
proof (rule solve_loop_invariant[where I = "\<lambda>s. m_halo_min s = 3"])
  show "m_halo_min (fst (s, tm)) = 3" using h by simp
next
  fix t and st :: "('a, 'b, 'c, 'd, 'e) solver \<times> double"
  assume "m_halo_min (fst st) = 3"
  then show "(\<forall>e\<in>set (fst (loop_body K w n dlt t st)).
                \<forall>h. e = CommunicateParticles h \<longrightarrow> h = 3) \<and>
            (\<forall>st1. snd (loop_body K w n dlt t st) = Inr st1 \<longrightarrow> m_halo_min (fst st1) = 3)"
    by (rule loop_body_halo)
qed

lemma Solver_halo:
  assumes "Solver K a = (ev, Inr s)"
  shows "m_halo_min s = 3" and "hd ev = MeshCtor (halo_cell_width a) 3"
  using assms by (auto simp: Solver_def Let_def split: sum.splits)

lemma solve_loop_step:
  assumes "t < n" and "loop_body K w n dlt t st = (ev, Inr st1)"
  shows "solve_loop K w n dlt t st =
          (ev @ fst (solve_loop K w n dlt (t + 1) st1), snd (solve_loop K w n dlt (t + 1) st1))"
  by (subst solve_loop.simps) (simp add: assms Let_def)

lemma solve_loop_done:
  assumes "\<not> t < n"
  shows "solve_loop K w n dlt t st = ([], Inr st)"
  by (subst solve_loop.simps) (simp add: assms)

lemma num_step_demo: "0 < n \<Longrightarrow> n < 2 ^ 31 \<Longrightarrow> num_step_of (Finite (of_int n)) (m_dt demo_solver) = Inr n"
  by (simp add: demo_solver_def num_step_of_int)

lemma solve_loop_zero_calls:
  "map callee (fst (solve_loop K 0 n dlt t st))
     = (if t < n \<and> m_rank (fst st) \<noteq> 0 then core_calls else [])"
  by (simp add: solve_loop_zero loop_body_zero core_calls_def)

lemma write_snapshot_calls: "map callee (write_snapshot K s i tm) = snapshot_calls"
  by (simp add: write_snapshot_def snapshot_calls_def)

lemma write_snapshot_projections:
  "concat (map snapshot_index (write_snapshot K s i tm)) = [i]"
  "concat (map domain_index (write_snapshot K s i tm)) = [0, 0]"
  "concat (map integrator_step (write_snapshot K s i tm)) = []"
  by (simp_all add: write_snapshot_def)

lemma loop_body_domain_index:
  assumes "w \<noteq> 0"
  shows "concat (map domain_index (fst (loop_body K w n dlt t st)))
           = (if rem t w = Inr 0 then [0, 0] else [])"
  using assms
  by (simp add: loop_body_def progress_notice_def rem_nonzero Let_def write_snapshot_def
      split: prod.splits)

lemma concat_map_if_replicate:
  "concat (map (\<lambda>t. if Q t then [a, a] else []) xs) = replicate (2 * length (filter Q xs)) a"
  by (induction xs) auto

lemma solve_loop_domain_indices:
  assumes "w \<noteq> 0"
  shows "domain_indices (fst (solve_loop K w n dlt t st))
           = replicate (2 * length (filter (\<lambda>t. rem t w = Inr 0) [t..n - 1])) 0"
proof -
  have "concat (map domain_index (fst (solve_loop K w n dlt t st)))
      = concat (map ((\<lambda>r t. if rem t w = Inr 0 then [0, 0] else []) (m_rank (fst st))) [t..n - 1])"
    by (rule solve_loop_project[OF assms]) (simp add: loop_body_domain_index[OF assms])
  then show ?thesis
    by (simp add: domain_indices_def concat_map_if_replicate)
qed

lemma solve_snapshot_indices:
  assumes "num_step_of t_final (m_dt s) = Inr n" and "w \<noteq> 0"
  shows "snapshot_indices (fst (solve K s t_final w))
           = 0 # map (\<lambda>t. t + 1) (filter (\<lambda>t. rem t w = Inr 0) [0..n - 1])"
  using solve_loop_snapshot_indices[OF assms(2), of K n "delta_t_of t_final n" 0 "(s, Finite 0)"]
  by (simp add: solve_unfold[OF assms(1)] snapshot_indices_def write_snapshot_projections)

lemma solve_domain_indices:
  assumes "num_step_of t_final (m_dt s) = Inr n" and "w \<noteq> 0"
  shows "domain_indices (fst (solve K s t_final w))
           = replicate (2 + 2 * length (filter (\<lambda>t. rem t w = Inr 0) [0..n - 1])) 0"
  using solve_loop_domain_indices[OF assms(2), of K n "delta_t_of t_final n" 0 "(s, Finite 0)"]
  by (simp add: solve_unfold[OF assms(1)] domain_indices_def write_snapshot_projections)

lemma every_fifth_of_23:
  "filter (\<lambda>t. rem t 5 = Inr 0) [0..23 - 1] = [0, 5, 10, 15, 20]"
  by code_simp

lemma solve_integrator_steps:
  assumes "num_step_of t_final (m_dt s) = Inr n" and "w \<noteq> 0"
  shows "integrator_steps (fst (solve K s t_final w)) = nat n"
  using solve_loop_integrator_steps[OF assms(2), of K n "delta_t_of t_final n" 0 "(s, Finite 0)"]
  by (simp add: solve_unfold[OF assms(1)] integrator_steps_def write_snapshot_projections)

lemma solve_completes:
  assumes "num_step_of t_final (m_dt s) = Inr n" and "w \<noteq> 0"
  shows "\<exists>s1 tm. snd (solve K s t_final w) = Inr (s1, tm)"
  using solve_loop_completes[OF assms(2), of K n "delta_t_of t_final n" 0 "(s, Finite 0)"]
  by (simp add: solve_unfold[OF assms(1)])

lemma solve_no_iteration:
  assumes "num_step_of t_final (m_dt s) = Inr n" and "n \<le> 0"
  shows "solve K s t_final w =
        (write_snapshot K s 0 (Finite 0)
           @ [Divide t_final (m_dt s) (fdiv t_final (m_dt s)),
              Divide t_final (int_to_double n) (delta_t_of t_final n)],
         Inr (s, Finite 0))"
  using assms(2) by (simp add: solve_unfold[OF assms(1)] solve_loop_done)

lemma solve_write_freq_zero:
  assumes "num_step_of t_final (m_dt s) = Inr n" and "0 < n" and "m_rank s = 0"
  shows "solve K s t_final 0 =
        (write_snapshot K s 0 (Finite 0)
           @ [Divide t_final (m_dt s) (fdiv t_final (m_dt s)),
              Divide t_final (int_to_double n) (delta_t_of t_final n)],
         Inl IntegerDivisionByZero)"
  using assms(2,3) by (simp add: solve_unfold[OF assms(1)] solve_loop_zero loop_body_zero)





text \<open>The loop of the source is the iteration of the specification, repeated.\<close>

lemma spec_iteration_frame:
  "m_halo_min (spec_iteration K dlt h s) = m_halo_min s"
  "m_rank (spec_iteration K dlt h s) = m_rank s"
  "m_bc (spec_iteration K dlt h s) = m_bc s"
  "m_gravity (spec_iteration K dlt h s) = m_gravity s"
  "m_dt (spec_iteration K dlt h s) = m_dt s"
  by (simp_all add: spec_iteration_def Let_def)

lemma loop_body_spec:
  assumes "w \<noteq> 0"
  shows "loop_body K w n dlt t (s, tm) =
           (spec_iteration_events K w n dlt t s tm,
            Inr (spec_iteration K dlt (m_halo_min s) s, fadd tm dlt))"
  using assms
  by (simp add: loop_body_def progress_notice_def rem_nonzero Let_def spec_iteration_def
      spec_iteration_events_def)

lemma solve_loop_spec:
  assumes "w \<noteq> 0" and "j = nat (n - t)"
  shows "solve_loop K w n dlt t (s, tm) =
           (concat (map (\<lambda>k. spec_iteration_events K w n dlt (t + int k)
                               ((spec_iteration K dlt (m_halo_min s) ^^ k) s)
                               (((\<lambda>time. fadd time dlt) ^^ k) tm))
                      [0..<j]),
            Inr ((spec_iteration K dlt (m_halo_min s) ^^ j) s,
                 ((\<lambda>time. fadd time dlt) ^^ j) tm))"
  using assms(2)
proof (induction j arbitrary: t s tm)
  case 0
  then have "\<not> t < n" by simp
  then show ?case by (simp add: solve_loop_done)
next
  case (Suc j)
  then have lt: "t < n" and j: "j = nat (n - (t + 1))" by simp_all
  let ?f = "spec_iteration K dlt (m_halo_min s)"
  let ?g = "\<lambda>time. fadd time dlt"
  note lb = loop_body_spec[OF assms(1), of K n dlt t s tm]
  have h: "m_halo_min (?f s) = m_halo_min s" by (simp add: spec_iteration_frame)
  note ih = Suc.IH[OF j, of "?f s" "?g tm", unfolded h]
  have up: "[0..<Suc j] = 0 # map Suc [0..<j]"
    by (simp only: map_Suc_upt upt_conv_Cons[of 0 "Suc j"])
  have g: "((\<lambda>time. fadd time dlt) ^^ k) (fadd x dlt)
             = fadd (((\<lambda>time. fadd time dlt) ^^ k) x) dlt" for k x
    by (induction k) simp_all
  show ?case
    by (simp only: solve_loop_step[OF lt lb] ih up)
       (simp add: funpow_swap1 g comp_def algebra_simps)
qed

lemma solve_spec:
  assumes "num_step_of t_final (m_dt s) = Inr n" and "w \<noteq> 0"
  shows "solve K s t_final w =
           (write_snapshot K s 0 (Finite 0)
              @ [Divide t_final (m_dt s) (fdiv t_final (m_dt s)),
                 Divide t_final (int_to_double n) (delta_t_of t_final n)]
              @ spec_run K w n (delta_t_of t_final n) s,
            Inr (spec_state K (delta_t_of t_final n) (nat n) s,
                 spec_time (delta_t_of t_final n) (nat n)))"
  using solve_loop_spec[OF assms(2), of "nat n" n 0 K "delta_t_of t_final n" s "Finite 0"]
  by (simp add: solve_unfold[OF assms(1)] spec_run_def spec_state_def spec_time_def)

lemma spec_state_halo:
  assumes "m_halo_min s = h"
  shows "spec_state K dlt k s = (spec_iteration K dlt h ^^ k) s"
  by (simp add: spec_state_def assms)







lemma spec_times:
  "spec_time (Finite 1) 0 = Finite 0"
  "spec_time (Finite 1) (Suc 0) = Finite 1"
  "spec_time (Finite 1) 2 = Finite 2"
  by (simp_all add: spec_time_def numeral_2_eq_2 fadd_Finite rnd_1 rnd_numeral)

lemma recording_Solver:
  "Solver recording demo_args =
     ([MeshCtor 3 3, MinDomainGlobalNodeIndex, MaxDomainGlobalNodeIndex, ProblemManagerCtor,
       CommRank, LoadBalancerCtor], Inr (recording_solver 0 (recorded []) []))"
  by (simp add: Solver_def recording_def demo_args_def recording_solver_def recorded_def
      recorded_bc_def)

lemma recording_first:
  "spec_iteration recording (Finite 1) 3 (recording_solver 0 (recorded []) [])
     = recording_solver 1 (recorded [(1, Finite 1)]) first_iteration"
  by (simp add: spec_iteration_def recording_def recording_solver_def recorded_def
      first_iteration_def size_to_double_1 Let_def)

lemma recording_second:
  "spec_iteration recording (Finite 1) 3
       (recording_solver 1 (recorded [(1, Finite 1)]) first_iteration)
     = recording_solver 2 (recorded [(2, Finite 4), (1, Finite 1)])
         (first_iteration @ second_iteration)"
  by (simp add: spec_iteration_def recording_def recording_solver_def recorded_def
      first_iteration_def second_iteration_def size_to_double_4 Let_def)

lemma recording_halo: "m_halo_min (recording_solver l m p) = 3"
  by (simp add: recording_solver_def)

lemma recording_states:
  "spec_state recording (Finite 1) 0 (recording_solver 0 (recorded []) [])
     = recording_solver 0 (recorded []) []"
  "spec_state recording (Finite 1) (Suc 0) (recording_solver 0 (recorded []) [])
     = recording_solver 1 (recorded [(1, Finite 1)]) first_iteration"
  "spec_state recording (Finite 1) 2 (recording_solver 0 (recorded []) [])
     = recording_solver 2 (recorded [(2, Finite 4), (1, Finite 1)])
         (first_iteration @ second_iteration)"
  by (simp_all only: spec_state_def recording_halo funpow.simps comp_def id_apply numeral_2_eq_2
      recording_first recording_second)

lemma recording_run:
  "spec_run recording 2 2 (Finite 1) (recording_solver 0 (recorded []) []) =
     [Printf 1 2, Step (recorded []) (Finite 1) (Finite 0) recorded_bc, NumParticle,
      CreateBalancedGlobalGrid (Finite 1), NewGlobalGrid, UpdateMesh, CommunicateParticles 3,
      WriteTimeStep 1 (Finite 0) first_iteration,
      WriteDomain 0 [] ''domain_act'', WriteDomain 0 [] ''domain_lb'',
      Step (recorded [(1, Finite 1)]) (Finite 1) (Finite 0) recorded_bc, NumParticle,
      CreateBalancedGlobalGrid (Finite 4), NewGlobalGrid, UpdateMesh, CommunicateParticles 3]"
proof -
  have u: "[0..<nat 2] = [0, Suc 0]" by (simp add: upt_rec)
  have e0: "spec_iteration_events recording 2 2 (Finite 1) (int 0)
              (recording_solver 0 (recorded []) []) (Finite 0) =
     [Printf 1 2, Step (recorded []) (Finite 1) (Finite 0) recorded_bc, NumParticle,
      CreateBalancedGlobalGrid (Finite 1), NewGlobalGrid, UpdateMesh, CommunicateParticles 3,
      WriteTimeStep 1 (Finite 0) first_iteration,
      WriteDomain 0 [] ''domain_act'', WriteDomain 0 [] ''domain_lb'']"
    by (simp only: spec_iteration_events_def recording_halo recording_first)
       (simp add: recording_solver_def recording_def rem_def write_snapshot_def
          size_to_double_1)
  have e1: "spec_iteration_events recording 2 2 (Finite 1) (int (Suc 0))
              (recording_solver 1 (recorded [(1, Finite 1)]) first_iteration) (Finite 1) =
     [Step (recorded [(1, Finite 1)]) (Finite 1) (Finite 0) recorded_bc, NumParticle,
      CreateBalancedGlobalGrid (Finite 4), NewGlobalGrid, UpdateMesh, CommunicateParticles 3]"
    by (simp only: spec_iteration_events_def recording_halo recording_second)
       (simp add: recording_solver_def recording_def rem_def write_snapshot_def
          first_iteration_def size_to_double_4)
  show ?thesis
    by (simp only: spec_run_def u list.map concat.simps recording_states spec_times e0 e1
        append.simps append_Nil2)
qed

lemma recording_num_step: "num_step_of (Finite 2) (m_dt (recording_solver l m p)) = Inr 2"
  using num_step_of_int[of 2] by (simp add: recording_solver_def)

lemma recording_divisions:
  "fdiv (Finite 2) (Finite 1) = Finite 2"
  "int_to_double 2 = Finite 2"
  "m_dt (recording_solver l m p) = Finite 1"
  by (simp_all add: recording_solver_def fdiv_Finite rnd_numeral int_to_double_def)

lemma recording_snapshot:
  "write_snapshot recording (recording_solver l m p) i tm =
     [WriteTimeStep i tm p, WriteDomain 0 [] ''domain_act'', WriteDomain 0 [] ''domain_lb'']"
  by (simp add: write_snapshot_def recording_solver_def recording_def)

lemma recording_solve:
  "solve recording (recording_solver 0 (recorded []) []) (Finite 2) 2 =
     ([WriteTimeStep 0 (Finite 0) [], WriteDomain 0 [] ''domain_act'',
       WriteDomain 0 [] ''domain_lb'',
       Divide (Finite 2) (Finite 1) (Finite 2), Divide (Finite 2) (Finite 2) (Finite 1),
       Printf 1 2, Step (recorded []) (Finite 1) (Finite 0) recorded_bc, NumParticle,
       CreateBalancedGlobalGrid (Finite 1), NewGlobalGrid, UpdateMesh, CommunicateParticles 3,
       WriteTimeStep 1 (Finite 0) first_iteration,
       WriteDomain 0 [] ''domain_act'', WriteDomain 0 [] ''domain_lb'',
       Step (recorded [(1, Finite 1)]) (Finite 1) (Finite 0) recorded_bc, NumParticle,
       CreateBalancedGlobalGrid (Finite 4), NewGlobalGrid, UpdateMesh, CommunicateParticles 3],
      Inr (recording_solver 2 (recorded [(2, Finite 4), (1, Finite 1)])
             (first_iteration @ second_iteration), Finite 2))"
proof -
  have w: "(2::int) \<noteq> 0" by simp
  have n2: "nat 2 = 2" by simp
  show ?thesis
    by (simp only: solve_spec[OF recording_num_step w] delta_t_of_2 recording_run
        recording_states spec_times recording_divisions recording_snapshot n2 append.simps)
qed


lemma recording_calls:
  "iteration_calls 0 2 0 = [''printf''] @ core_calls @ snapshot_calls"
  "iteration_calls 0 2 1 = core_calls"
  "[0..2 - 1] = [0, 1::int]"
  "m_rank (recording_solver l m p) = 0"
  by (simp_all add: iteration_calls_def rem_def upto_rec1 recording_solver_def)

section \<open>Properties of the migration\<close>

lemma mset_concat_upt:
  "mset (concat (map f [0..<n])) = (\<Sum>r\<in>{0..<n}. mset (f r))"
  by (induction n) (simp_all add: add.commute)

lemma owner_less:
  assumes "owner gd part p = Some r"
  shows "r < length part"
proof -
  define rs where "rs = filter (\<lambda>r. ownsPosition gd (part ! r) p) [0..<length part]"
  have "rs \<noteq> []" and "r = hd rs"
    using assms by (auto simp: owner_def rs_def[symmetric] split: list.splits)
  then have "r \<in> set rs" by simp
  then show ?thesis by (simp add: rs_def)
qed

lemma split_by_owner:
  "mset (filter (\<lambda>p. \<exists>r<n. own p = Some r) ps)
     = (\<Sum>r\<in>{0..<n}. mset (filter (\<lambda>p. own p = Some (r::nat)) ps))"
proof (induction n)
  case 0
  show ?case by simp
next
  case (Suc n)
  have "mset (filter (\<lambda>p. \<exists>r<Suc n. own p = Some r) ps)
      = mset (filter (\<lambda>p. \<exists>r<n. own p = Some r) ps) + mset (filter (\<lambda>p. own p = Some n) ps)"
    by (rule multiset_eqI) (auto simp: less_Suc_eq)
  then show ?case using Suc.IH by (simp add: add.commute)
qed

lemma leaving_split:
  assumes "\<forall>p \<in> set (st ! s). \<exists>r < n. owner gd part p = Some r"
  shows "mset (leaving gd part st s) = (\<Sum>r\<in>{0..<n}. mset (sent gd part st s r))"
proof -
  have "\<forall>p \<in> set (leaving gd part st s). \<exists>r < n. owner gd part p = Some r"
    using assms by (simp add: leaving_def)
  then have "filter (\<lambda>p. \<exists>r<n. owner gd part p = Some r) (leaving gd part st s)
               = leaving gd part st s"
    by (simp add: filter_id_conv)
  then show ?thesis
    using split_by_owner[of n "owner gd part" "leaving gd part st s"]
    by (simp add: sent_def)
qed

lemma staying_leaving: "mset (staying gd part st s) + mset (leaving gd part st s) = mset (st ! s)"
  by (simp add: staying_def leaving_def)

lemma mset_concat_nth: "mset (concat st) = (\<Sum>s\<in>{0..<length st}. mset (st ! s))"
proof -
  have "concat st = concat (map (\<lambda>s. st ! s) [0..<length st])"
    by (simp add: map_nth)
  then show ?thesis by (simp only: mset_concat_upt)
qed

lemma migrate_mset:
  assumes "migrate gd part min_halo st = Inr st1"
  shows "mset (concat st1) = mset (concat st)"
proof -
  define n where "n = length st"
  have len: "length part = n"
    and own: "\<forall>p \<in> set (concat st). owner gd part p \<noteq> None"
    and st1: "st1 = map (\<lambda>r. staying gd part st r
                         @ concat (map (\<lambda>s. sent gd part st s r) [0..<n])) [0..<n]"
    using assms by (auto simp: migrate_def n_def list_ex_iff split: if_splits)
  have owned: "\<forall>p \<in> set (st ! s). \<exists>r < n. owner gd part p = Some r" if "s < n" for s
  proof
    fix p assume "p \<in> set (st ! s)"
    then have "p \<in> set (concat st)" using that by (auto simp: n_def)
    then obtain r where "owner gd part p = Some r" using own by auto
    then show "\<exists>r < n. owner gd part p = Some r" using owner_less[of gd part p r] len by auto
  qed
  have "mset (concat st1)
      = (\<Sum>r\<in>{0..<n}. mset (staying gd part st r)
           + (\<Sum>s\<in>{0..<n}. mset (sent gd part st s r)))"
    by (simp add: st1 mset_concat_upt)
  also have "\<dots> = (\<Sum>r\<in>{0..<n}. mset (staying gd part st r))
           + (\<Sum>r\<in>{0..<n}. \<Sum>s\<in>{0..<n}. mset (sent gd part st s r))"
    by (simp add: sum.distrib)
  also have "(\<Sum>r\<in>{0..<n}. \<Sum>s\<in>{0..<n}. mset (sent gd part st s r))
           = (\<Sum>s\<in>{0..<n}. \<Sum>r\<in>{0..<n}. mset (sent gd part st s r))"
    by (rule sum.swap)
  also have "\<dots> = (\<Sum>s\<in>{0..<n}. mset (leaving gd part st s))"
    by (rule sum.cong) (simp_all add: leaving_split[OF owned])
  also have "(\<Sum>r\<in>{0..<n}. mset (staying gd part st r))
             + (\<Sum>s\<in>{0..<n}. mset (leaving gd part st s))
           = (\<Sum>s\<in>{0..<n}. mset (st ! s))"
    by (simp add: sum.distrib[symmetric] staying_leaving)
  finally show ?thesis by (simp add: mset_concat_nth n_def)
qed

lemma particleCount_mset: "particleCount st = size (mset (concat st))"
  by (simp add: particleCount_def length_concat)

lemma particleCount_integrate: "particleCount (integrate upd st) = particleCount st"
proof -
  have "map length (integrate upd st) = map (\<lambda>r. length (st ! r)) [0..<length st]"
    by (simp add: integrate_def)
  also have "\<dots> = map length (map (\<lambda>r. st ! r) [0..<length st])"
    by (simp only: map_map comp_def)
  also have "\<dots> = map length st"
    by (simp only: map_nth)
  finally show ?thesis by (simp add: particleCount_def)
qed

lemma migrate_length:
  assumes "migrate gd part min_halo st = Inr st1"
  shows "length st1 = length st"
  using assms by (auto simp: migrate_def split: if_splits)

lemma demo_integrate:
  "integrate demo_update demo_store
     = [[demo_particle (3 / 2), demo_particle (5 / 2)], [demo_particle (7 / 2)]]"
  by (simp add: integrate_def demo_update_def demo_store_def demo_particle_def upt_rec)

lemma demo_migrate:
  "migrate demo_domain demo_partition 3
       [[demo_particle (3 / 2), demo_particle (5 / 2)], [demo_particle (7 / 2)]]
     = Inr [[demo_particle (3 / 2)], [demo_particle (7 / 2), demo_particle (5 / 2)]]"
  by code_simp

section \<open>The claims\<close>

subsection \<open>C1: the number of steps and the corrected time step\<close>

text \<open>
  Claim C1 says that for every run \<^verbatim>\<open>delta_t * num_step == t_final\<close> holds exactly.
  The final time 1.0 with the time step \<open>83 / 4096\<close> (a value of the type) gives 49 steps
  of \<open>fl(1 / 49)\<close>, and 49 times this time step is not 1: neither exactly nor rounded, as
  the product computed in \<^verbatim>\<open>double\<close> is \<open>1 - 2^-53\<close>. (With a final time below the time
  step there is, by claim C9, no finite \<^verbatim>\<open>delta_t\<close> at all.)
\<close>

theorem time_step_counterexample:
  "is_double (83 / 4096)
   \<and> num_step_of (Finite 1) (Finite (83 / 4096)) = Inr 49
   \<and> delta_t_of (Finite 1) 49 = Finite (5882252574524729 / 288230376151711744)
   \<and> (5882252574524729 / 288230376151711744 :: rat) * 49 \<noteq> 1
   \<and> \<not> feq (fmul (Finite (5882252574524729 / 288230376151711744)) (int_to_double 49))
           (Finite 1)"
proof -
  have "(5882252574524729 / 288230376151711744 :: rat) * 49 \<noteq> 1" by simp
  moreover have "\<not> feq (fmul (Finite (5882252574524729 / 288230376151711744))
      (int_to_double 49)) (Finite 1)"
    by (simp only: product_49) (simp add: feq_def)
  ultimately show ?thesis
    using double_83_4096 num_step_49 delta_t_49 by (intro conjI)
qed

text \<open>
  Claim C1, amended. \<^verbatim>\<open>solve\<close> divides \<^verbatim>\<open>t_final\<close> by \<^verbatim>\<open>_dt\<close> and takes the
  integer part (towards zero) of the quotient rounded to \<^verbatim>\<open>double\<close> as \<^verbatim>\<open>num_step\<close>,
  then divides \<^verbatim>\<open>t_final\<close> by \<^verbatim>\<open>num_step\<close> and runs the loop with this quotient
  rounded to \<^verbatim>\<open>double\<close> as \<^verbatim>\<open>delta_t\<close>. For every finite \<^verbatim>\<open>t_final\<close> for which
  \<^verbatim>\<open>num_step\<close> is defined and not 0, \<^verbatim>\<open>delta_t\<close> is finite and the exact quotient
  \<open>t_final / num_step\<close> is not below the smallest normal number \<open>2^-1022\<close> in
  magnitude, the exact product \<open>delta_t * num_step\<close> differs from \<^verbatim>\<open>t_final\<close> by at most
  \<open>2^-53 * \<bar>t_final\<bar>\<close> (half a unit in the last place of 1): equal within the
  floating-point epsilon, not exactly. For \<^verbatim>\<open>t_final = 1.0\<close> and the time step
  \<^verbatim>\<open>0.01\<close> (the \<^verbatim>\<open>double\<close> nearest to \<open>1 / 100\<close>), \<^verbatim>\<open>num_step\<close> is 100,
  \<^verbatim>\<open>delta_t\<close> is \<^verbatim>\<open>0.01\<close> and the product computed in \<^verbatim>\<open>double\<close> is 1.0.
\<close>

theorem time_step:
  assumes "num_step_of (Finite t) (m_dt s) = Inr n" and "n \<noteq> 0"
    and "delta_t_of (Finite t) n = Finite d"
    and "2 powi (- 1022) \<le> \<bar>t / of_int n\<bar>"
  shows "(\<exists>q. fdiv (Finite t) (m_dt s) = Finite q \<and> n = trunc q
            \<and> solve K s (Finite t) w =
                (write_snapshot K s 0 (Finite 0)
                   @ [Divide (Finite t) (m_dt s) (Finite q),
                      Divide (Finite t) (int_to_double n) (Finite d)]
                   @ fst (solve_loop K w n (Finite d) 0 (s, Finite 0)),
                 snd (solve_loop K w n (Finite d) 0 (s, Finite 0))))
       \<and> d = rndq (t / of_int n)
       \<and> \<bar>d * of_int n - t\<bar> \<le> \<bar>t\<bar> * 2 powi (- 53)
       \<and> num_step_of (Finite 1) (rnd (1 / 100)) = Inr 100
       \<and> delta_t_of (Finite 1) 100 = rnd (1 / 100)
       \<and> feq (fmul (rnd (1 / 100)) (int_to_double 100)) (Finite 1)"
proof -
  obtain q where q: "fdiv (Finite t) (m_dt s) = Finite q" "n = trunc q"
    using num_step_of_Finite[OF assms(1,2)] by blast
  have "solve K s (Finite t) w =
          (write_snapshot K s 0 (Finite 0)
             @ [Divide (Finite t) (m_dt s) (Finite q),
                Divide (Finite t) (int_to_double n) (Finite d)]
             @ fst (solve_loop K w n (Finite d) 0 (s, Finite 0)),
           snd (solve_loop K w n (Finite d) 0 (s, Finite 0)))"
    by (simp only: solve_unfold[OF assms(1)] q(1) assms(3))
  with q have a: "\<exists>q. fdiv (Finite t) (m_dt s) = Finite q \<and> n = trunc q
            \<and> solve K s (Finite t) w =
                (write_snapshot K s 0 (Finite 0)
                   @ [Divide (Finite t) (m_dt s) (Finite q),
                      Divide (Finite t) (int_to_double n) (Finite d)]
                   @ fst (solve_loop K w n (Finite d) 0 (s, Finite 0)),
                 snd (solve_loop K w n (Finite d) 0 (s, Finite 0)))"
    by blast
  have "feq (fmul (rnd (1 / 100)) (int_to_double 100)) (Finite 1)"
    by (simp only: product_001_100) (simp add: feq_def)
  then show ?thesis
    using a delta_t_of_rndq[OF assms(3,2)]
      corrected_step_error[OF assms(3,2,4)] num_step_1_001 delta_t_1_100
    by (intro conjI)
qed

theorem time_step_witness:
  "num_step_of (Finite 1) (m_dt (demo_solver\<lparr>m_dt := rnd (1 / 100)\<rparr>)) = Inr 100
   \<and> (100::int) \<noteq> 0
   \<and> delta_t_of (Finite 1) 100 = Finite (5764607523034235 / 576460752303423488)
   \<and> (2::rat) powi (- 1022) \<le> \<bar>1 / of_int 100\<bar>
   \<and> \<bar>5764607523034235 / 576460752303423488 * of_int 100 - 1\<bar> \<le> \<bar>1::rat\<bar> * 2 powi (- 53)
   \<and> solve (demo 0) (demo_solver\<lparr>m_dt := rnd (1 / 100)\<rparr>) (Finite 1) 5 =
       (write_snapshot (demo 0) (demo_solver\<lparr>m_dt := rnd (1 / 100)\<rparr>) 0 (Finite 0)
          @ [Divide (Finite 1) (m_dt (demo_solver\<lparr>m_dt := rnd (1 / 100)\<rparr>)) (Finite 100),
             Divide (Finite 1) (int_to_double 100)
               (Finite (5764607523034235 / 576460752303423488))]
          @ fst (solve_loop (demo 0) 5 100 (Finite (5764607523034235 / 576460752303423488)) 0
                   (demo_solver\<lparr>m_dt := rnd (1 / 100)\<rparr>, Finite 0)),
        snd (solve_loop (demo 0) 5 100 (Finite (5764607523034235 / 576460752303423488)) 0
               (demo_solver\<lparr>m_dt := rnd (1 / 100)\<rparr>, Finite 0)))"
proof -
  have m: "m_dt (demo_solver\<lparr>m_dt := rnd (1 / 100)\<rparr>) = rnd (1 / 100)" by simp
  have n: "num_step_of (Finite 1) (m_dt (demo_solver\<lparr>m_dt := rnd (1 / 100)\<rparr>)) = Inr 100"
    by (simp only: m num_step_1_001)
  have d: "delta_t_of (Finite 1) 100 = Finite (5764607523034235 / 576460752303423488)"
    by (simp only: delta_t_1_100 rnd_001)
  have z: "(100::int) \<noteq> 0" by simp
  note H = time_step[OF n z d normal_1_100, where K = "demo 0" and w = 5]
  obtain q where q: "fdiv (Finite 1) (m_dt (demo_solver\<lparr>m_dt := rnd (1 / 100)\<rparr>)) = Finite q"
    and s: "solve (demo 0) (demo_solver\<lparr>m_dt := rnd (1 / 100)\<rparr>) (Finite 1) 5 =
       (write_snapshot (demo 0) (demo_solver\<lparr>m_dt := rnd (1 / 100)\<rparr>) 0 (Finite 0)
          @ [Divide (Finite 1) (m_dt (demo_solver\<lparr>m_dt := rnd (1 / 100)\<rparr>)) (Finite q),
             Divide (Finite 1) (int_to_double 100)
               (Finite (5764607523034235 / 576460752303423488))]
          @ fst (solve_loop (demo 0) 5 100 (Finite (5764607523034235 / 576460752303423488)) 0
                   (demo_solver\<lparr>m_dt := rnd (1 / 100)\<rparr>, Finite 0)),
        snd (solve_loop (demo 0) 5 100 (Finite (5764607523034235 / 576460752303423488)) 0
               (demo_solver\<lparr>m_dt := rnd (1 / 100)\<rparr>, Finite 0)))"
    using H[THEN conjunct1] by blast
  have "Finite q = Finite 100" using q by (simp only: m fdiv_1_001)
  then have q2: "q = 100" by (simp only: double.inject)
  show ?thesis
    using n z d normal_1_100 H[THEN conjunct2, THEN conjunct2, THEN conjunct1] s[unfolded q2]
    by (intro conjI)
qed

subsection \<open>C2: the snapshots\<close>

text \<open>
  Claim C2 says that the snapshots are emitted at the step indices \<open>t\<close> with
  \<^verbatim>\<open>t % write_freq == 0\<close> and at step index 0 before the loop, for instance at 0, 5, 10,
  15, 20 for \<^verbatim>\<open>write_freq = 5\<close> and 23 steps. The loop writes the snapshot of iteration
  \<open>t\<close> with the step index \<^verbatim>\<open>t + 1\<close>: the run of 23 steps emits the indices 0, 1, 6,
  11, 16, 21.
\<close>

theorem solve_snapshots_counterexample:
  "num_step_of (Finite 23) (m_dt demo_solver) = Inr 23
   \<and> snapshot_indices (fst (solve (demo 0) demo_solver (Finite 23) 5)) = [0, 1, 6, 11, 16, 21]
   \<and> snapshot_indices (fst (solve (demo 0) demo_solver (Finite 23) 5)) \<noteq> [0, 5, 10, 15, 20]"
proof -
  have n: "num_step_of (Finite 23) (m_dt demo_solver) = Inr 23"
    using num_step_demo[of 23] by simp
  have "snapshot_indices (fst (solve (demo 0) demo_solver (Finite 23) 5))
          = 0 # map (\<lambda>t. t + 1) (filter (\<lambda>t. rem t 5 = Inr 0) [0..23 - 1])"
    by (rule solve_snapshot_indices[OF n]) simp
  then have "snapshot_indices (fst (solve (demo 0) demo_solver (Finite 23) 5))
          = [0, 1, 6, 11, 16, 21]"
    by (simp only: every_fifth_of_23) simp
  then show ?thesis using n by simp
qed

text \<open>
  Claim C2, amended. For every run of \<^verbatim>\<open>solve\<close> with \<^verbatim>\<open>write_freq\<close> other than 0
  whose number of steps is defined, one snapshot is written before the loop, with step
  index 0, and one in each iteration \<open>t\<close> of \<open>0, ..., num_step - 1\<close> with
  \<^verbatim>\<open>t % write_freq == 0\<close>, with step index \<^verbatim>\<open>t + 1\<close>, and no other; every snapshot
  writes the two domain geometries, always with step index 0. For \<^verbatim>\<open>write_freq = 5\<close> and
  23 steps the snapshots of the loop are written in the iterations 0, 5, 10, 15, 20 and
  the step indices written are 0, 1, 6, 11, 16, 21.
\<close>

theorem solve_snapshots:
  assumes "num_step_of t_final (m_dt s) = Inr n" and "w \<noteq> 0"
  shows "snapshot_indices (fst (solve K s t_final w))
           = 0 # map (\<lambda>t. t + 1) (filter (\<lambda>t. rem t w = Inr 0) [0..n - 1])
       \<and> domain_indices (fst (solve K s t_final w))
           = replicate (2 * length (snapshot_indices (fst (solve K s t_final w)))) 0"
  by (simp add: solve_snapshot_indices[OF assms] solve_domain_indices[OF assms])

theorem solve_snapshots_witness:
  "num_step_of (Finite 23) (m_dt demo_solver) = Inr 23 \<and> (5::int) \<noteq> 0
   \<and> filter (\<lambda>t. rem t 5 = Inr 0) [0..23 - 1] = [0, 5, 10, 15, 20]
   \<and> snapshot_indices (fst (solve (demo 0) demo_solver (Finite 23) 5)) = [0, 1, 6, 11, 16, 21]
   \<and> domain_indices (fst (solve (demo 0) demo_solver (Finite 23) 5)) = replicate 12 0"
proof -
  have n: "num_step_of (Finite 23) (m_dt demo_solver) = Inr 23"
    using num_step_demo[of 23] by simp
  have w: "(5::int) \<noteq> 0" by simp
  note H = solve_snapshots[OF n w, of "demo 0"]
  have a: "snapshot_indices (fst (solve (demo 0) demo_solver (Finite 23) 5))
          = [0, 1, 6, 11, 16, 21]"
    using H[THEN conjunct1] by (simp only: every_fifth_of_23) simp
  have b: "domain_indices (fst (solve (demo 0) demo_solver (Finite 23) 5)) = replicate 12 0"
    using H[THEN conjunct2] by (simp only: a) simp
  show ?thesis using n a b every_fifth_of_23 by simp
qed

subsection \<open>C3: the bounds of the boundary condition after a repartition\<close>



subsection \<open>C4: backend selection in \<^verbatim>\<open>createSolver\<close>\<close>

text \<open>
  Claim C4. For every device string: a string that is none of \<^verbatim>\<open>serial\<close>,
  \<^verbatim>\<open>openmp\<close>, \<^verbatim>\<open>cuda\<close>, \<^verbatim>\<open>hip\<close> raises the runtime error "invalid backend", and the
  name of a backend that the build does not enable raises the runtime error that names
  it, in both cases before any call is made (the list of events is empty, so no mesh,
  particle or balancer state exists). For a recognised and enabled backend the result is
  what the constructor of the matching instantiation yields, wrapped in a shared pointer:
  the pointer is never null, and when the constructor returns the solver \<open>s\<close> the result
  is the non-null pointer to \<open>s\<close>.
\<close>

theorem createSolver_backend:
  "(case recognized device of
      None \<Rightarrow> createSolver B K device a = ([], Inl (RuntimeError ''invalid backend''))
    | Some b \<Rightarrow>
        if enabled B b then createSolver B K device a = make_shared b (Solver (K b) a)
        else createSolver B K device a = ([], Inl (RuntimeError (not_enabled_message b))))
   \<and> snd (createSolver B K device a) \<noteq> Inr None
   \<and> (\<forall>b ev s. recognized device = Some b \<and> enabled B b \<and> Solver (K b) a = (ev, Inr s)
         \<longrightarrow> createSolver B K device a = (ev, Inr (Some (b, s))))"
  by (auto simp: createSolver_def recognized_def make_shared_def split: sum.splits)

theorem createSolver_backend_witness:
  "createSolver demo_build (\<lambda>b. demo 0) ''openmp'' demo_args
     = ([MeshCtor 3 3, MinDomainGlobalNodeIndex, MaxDomainGlobalNodeIndex, ProblemManagerCtor,
         CommRank, LoadBalancerCtor], Inr (Some (OpenMP, demo_solver)))
   \<and> createSolver demo_build (\<lambda>b. demo 0) ''cuda'' demo_args
     = ([], Inl (RuntimeError ''CUDA Backend Not Enabled''))
   \<and> createSolver demo_build (\<lambda>b. demo 0) ''Serial'' demo_args
     = ([], Inl (RuntimeError ''invalid backend''))"
  using createSolver_backend[where device = "''openmp''" and B = demo_build and K = "\<lambda>b. demo 0"
      and a = demo_args]
    createSolver_backend[where device = "''cuda''" and B = demo_build and K = "\<lambda>b. demo 0"
      and a = demo_args]
    createSolver_backend[where device = "''Serial''" and B = demo_build and K = "\<lambda>b. demo 0"
      and a = demo_args]
  by (simp add: recognized_def demo_build_def demo_Solver make_shared_def)

subsection \<open>C5: the number of iterations\<close>

text \<open>
  Claim C5 says that \<^verbatim>\<open>solve\<close> ends after exactly \<^verbatim>\<open>num_step\<close> iterations for every
  \<^verbatim>\<open>t_final\<close> and \<^verbatim>\<open>write_freq\<close>. With \<^verbatim>\<open>write_freq = 0\<close> the first iteration
  evaluates \<^verbatim>\<open>t % 0\<close>: on rank 0 the run of two steps is cut before its first integrator
  step.
\<close>

theorem solve_iterations_counterexample:
  "num_step_of (Finite 2) (m_dt demo_solver) = Inr 2
   \<and> snd (solve (demo 0) demo_solver (Finite 2) 0) = Inl IntegerDivisionByZero
   \<and> integrator_steps (fst (solve (demo 0) demo_solver (Finite 2) 0)) = 0"
proof -
  have n: "num_step_of (Finite 2) (m_dt demo_solver) = Inr 2"
    using num_step_demo[of 2] by simp
  have r: "m_rank demo_solver = 0" by (simp add: demo_solver_def)
  have "solve (demo 0) demo_solver (Finite 2) 0
          = (write_snapshot (demo 0) demo_solver 0 (Finite 0)
               @ [Divide (Finite 2) (m_dt demo_solver) (fdiv (Finite 2) (m_dt demo_solver)),
                  Divide (Finite 2) (int_to_double 2) (delta_t_of (Finite 2) 2)],
             Inl IntegerDivisionByZero)"
    by (rule solve_write_freq_zero[OF n _ r]) simp
  then show ?thesis
    using n by (simp add: integrator_steps_def write_snapshot_projections)
qed

text \<open>
  Claim C5, amended. For every \<^verbatim>\<open>t_final\<close> whose quotient by the time step converts to
  an \<^verbatim>\<open>int\<close> \<^verbatim>\<open>num_step\<close>, and every \<^verbatim>\<open>write_freq\<close> other than 0 (or any
  \<^verbatim>\<open>write_freq\<close> when \<^verbatim>\<open>num_step\<close> is not positive), \<^verbatim>\<open>solve\<close> returns after exactly
  \<^verbatim>\<open>num_step\<close> iterations (none when \<^verbatim>\<open>num_step\<close> is negative), each running one
  integrator step; the loop has no other exit.
\<close>

theorem solve_iterations:
  assumes "num_step_of t_final (m_dt s) = Inr n" and "w \<noteq> 0 \<or> n \<le> 0"
  shows "integrator_steps (fst (solve K s t_final w)) = nat n
       \<and> (\<exists>s1 tm. snd (solve K s t_final w) = Inr (s1, tm))"
proof (cases "w \<noteq> 0")
  case True
  show ?thesis
    using solve_integrator_steps[OF assms(1) True, of K] solve_completes[OF assms(1) True, of K]
    by simp
next
  case False
  then have "n \<le> 0" using assms(2) by simp
  then show ?thesis
    by (simp add: solve_no_iteration[OF assms(1)] integrator_steps_def
        write_snapshot_projections)
qed

theorem solve_iterations_witness:
  "num_step_of (Finite 23) (m_dt demo_solver) = Inr 23 \<and> (5::int) \<noteq> 0
   \<and> integrator_steps (fst (solve (demo 0) demo_solver (Finite 23) 5)) = 23
   \<and> (\<exists>s1 tm. snd (solve (demo 0) demo_solver (Finite 23) 5) = Inr (s1, tm))"
proof -
  have n: "num_step_of (Finite 23) (m_dt demo_solver) = Inr 23"
    using num_step_demo[of 23] by simp
  have w: "(5::int) \<noteq> 0 \<or> (23::int) \<le> 0" by simp
  show ?thesis
    using solve_iterations[OF n w, of "demo 0"] n by simp
qed

subsection \<open>C6: the order of the operations in an iteration\<close>

text \<open>
  Claim C6. A run of \<^verbatim>\<open>solve\<close> with \<^verbatim>\<open>write_freq\<close> other than 0 is, after the
  snapshot and the two divisions before the loop, the iteration of the specification
  repeated \<^verbatim>\<open>num_step\<close> times: its events are those of \<open>spec_run\<close> and the members it
  ends with are those of \<open>spec_state\<close>. So in every iteration the integrator step runs
  first, on the mesh and the particles of the start of the iteration; the workload is the
  number of particles after this step; the load balancer computes the partition from this
  workload; the mesh is rebuilt with this partition; the problem manager is updated to the
  rebuilt mesh and its particles are then migrated on the rebuilt mesh; and the snapshot,
  when it is due, comes last and writes the particles after the migration. The only call
  before the integrator step is the progress notice printed on rank 0. By name, the calls
  of a run are in this order for every \<^verbatim>\<open>write_freq\<close>: with \<^verbatim>\<open>write_freq == 0\<close> the run
  is cut in its first iteration where the remainder is evaluated, before the integrator
  step on rank 0 and after the migration on the other ranks.
\<close>

theorem solve_call_order:
  assumes "num_step_of t_final (m_dt s) = Inr n"
  shows "(w \<noteq> 0 \<longrightarrow>
            solve K s t_final w =
              (write_snapshot K s 0 (Finite 0)
                 @ [Divide t_final (m_dt s) (fdiv t_final (m_dt s)),
                    Divide t_final (int_to_double n) (delta_t_of t_final n)]
                 @ spec_run K w n (delta_t_of t_final n) s,
               Inr (spec_state K (delta_t_of t_final n) (nat n) s,
                    spec_time (delta_t_of t_final n) (nat n))))
       \<and> map callee (fst (solve K s t_final w)) =
           snapshot_calls @ division_calls @
           (if w = 0 then (if 0 < n \<and> m_rank s \<noteq> 0 then core_calls else [])
            else concat (map (iteration_calls (m_rank s) w) [0..n - 1]))"
proof (cases "w = 0")
  case True
  show ?thesis
    by (simp add: solve_unfold[OF assms] True solve_loop_zero_calls write_snapshot_calls
        division_calls_def)
next
  case False
  have "map callee (fst (solve K s t_final w)) =
           snapshot_calls @ division_calls @ concat (map (iteration_calls (m_rank s) w) [0..n - 1])"
    using solve_loop_calls[OF False, of K n "delta_t_of t_final n" 0 "(s, Finite 0)"]
    by (simp add: solve_unfold[OF assms] write_snapshot_calls division_calls_def)
  then show ?thesis
    using solve_spec[OF assms False, of K] False by simp
qed

theorem solve_call_order_witness:
  "num_step_of (Finite 2) (m_dt (recording_solver 0 (recorded []) [])) = Inr 2
   \<and> (2::int) \<noteq> 0
   \<and> solve recording (recording_solver 0 (recorded []) []) (Finite 2) 2 =
     ([WriteTimeStep 0 (Finite 0) [], WriteDomain 0 [] ''domain_act'',
       WriteDomain 0 [] ''domain_lb'',
       Divide (Finite 2) (Finite 1) (Finite 2), Divide (Finite 2) (Finite 2) (Finite 1),
       Printf 1 2, Step (recorded []) (Finite 1) (Finite 0) recorded_bc, NumParticle,
       CreateBalancedGlobalGrid (Finite 1), NewGlobalGrid, UpdateMesh, CommunicateParticles 3,
       WriteTimeStep 1 (Finite 0) first_iteration,
       WriteDomain 0 [] ''domain_act'', WriteDomain 0 [] ''domain_lb'',
       Step (recorded [(1, Finite 1)]) (Finite 1) (Finite 0) recorded_bc, NumParticle,
       CreateBalancedGlobalGrid (Finite 4), NewGlobalGrid, UpdateMesh, CommunicateParticles 3],
      Inr (recording_solver 2 (recorded [(2, Finite 4), (1, Finite 1)])
             (first_iteration @ second_iteration), Finite 2))
   \<and> map callee (fst (solve recording (recording_solver 0 (recorded []) []) (Finite 2) 2)) =
       [''writeTimeStep'', ''writeDomain'', ''writeDomain'', ''operator/'', ''operator/'',
        ''printf'', ''step'', ''numParticle'', ''createBalancedGlobalGrid'', ''newGlobalGrid'',
        ''updateMesh'', ''communicateParticles'', ''writeTimeStep'', ''writeDomain'',
        ''writeDomain'',
        ''step'', ''numParticle'', ''createBalancedGlobalGrid'', ''newGlobalGrid'',
        ''updateMesh'', ''communicateParticles'']"
proof -
  note H = solve_call_order[OF recording_num_step[of 0 "recorded []" "[]"],
      where K = recording and w = 2]
  have w: "(2::int) \<noteq> 0" by simp
  have n2: "nat 2 = 2" by simp
  have a: "solve recording (recording_solver 0 (recorded []) []) (Finite 2) 2 =
     ([WriteTimeStep 0 (Finite 0) [], WriteDomain 0 [] ''domain_act'',
       WriteDomain 0 [] ''domain_lb'',
       Divide (Finite 2) (Finite 1) (Finite 2), Divide (Finite 2) (Finite 2) (Finite 1),
       Printf 1 2, Step (recorded []) (Finite 1) (Finite 0) recorded_bc, NumParticle,
       CreateBalancedGlobalGrid (Finite 1), NewGlobalGrid, UpdateMesh, CommunicateParticles 3,
       WriteTimeStep 1 (Finite 0) first_iteration,
       WriteDomain 0 [] ''domain_act'', WriteDomain 0 [] ''domain_lb'',
       Step (recorded [(1, Finite 1)]) (Finite 1) (Finite 0) recorded_bc, NumParticle,
       CreateBalancedGlobalGrid (Finite 4), NewGlobalGrid, UpdateMesh, CommunicateParticles 3],
      Inr (recording_solver 2 (recorded [(2, Finite 4), (1, Finite 1)])
             (first_iteration @ second_iteration), Finite 2))"
    by (simp only: H[THEN conjunct1, rule_format, OF w] delta_t_of_2 recording_run
        recording_states spec_times recording_divisions recording_snapshot n2 append.simps)
  have b: "map callee (fst (solve recording (recording_solver 0 (recorded []) []) (Finite 2) 2)) =
       [''writeTimeStep'', ''writeDomain'', ''writeDomain'', ''operator/'', ''operator/'',
        ''printf'', ''step'', ''numParticle'', ''createBalancedGlobalGrid'', ''newGlobalGrid'',
        ''updateMesh'', ''communicateParticles'', ''writeTimeStep'', ''writeDomain'',
        ''writeDomain'',
        ''step'', ''numParticle'', ''createBalancedGlobalGrid'', ''newGlobalGrid'',
        ''updateMesh'', ''communicateParticles'']"
    by (simp only: H[THEN conjunct2] recording_calls)
       (simp add: recording_calls(1,2) core_calls_def snapshot_calls_def division_calls_def)
  show ?thesis
    using recording_num_step[of 0 "recorded []" "[]"] w a b by (intro conjI)
qed

subsection \<open>C7: migration conserves the particles\<close>

text \<open>
  Claim C7, on the model of the particle store taken from the specification. When the
  migration that follows an integrator step succeeds, the number of particles over all
  processes after it is the number before it and the number before the step began, the
  processes are the same, and the particles after the migration are, as a multiset of
  records (position, velocity, deformation, mass, material), exactly the particles before it:
  none is created, destroyed, duplicated or altered.
\<close>

theorem migration_conserves_particles:
  assumes "migrate gd part min_halo (integrate upd st) = Inr st1"
  shows "particleCount st1 = particleCount (integrate upd st)
       \<and> particleCount st1 = particleCount st
       \<and> mset (concat st1) = mset (concat (integrate upd st))
       \<and> length st1 = length st"
proof -
  have m: "mset (concat st1) = mset (concat (integrate upd st))"
    by (rule migrate_mset[OF assms])
  then have c: "particleCount st1 = particleCount (integrate upd st)"
    by (simp only: particleCount_mset)
  have "length st1 = length (integrate upd st)" by (rule migrate_length[OF assms])
  then have l: "length st1 = length st" by (simp add: integrate_def)
  show ?thesis using m c l by (simp add: particleCount_integrate)
qed

theorem migration_conserves_particles_witness:
  "migrate demo_domain demo_partition 3 (integrate demo_update demo_store)
     = Inr [[demo_particle (3 / 2)], [demo_particle (7 / 2), demo_particle (5 / 2)]]
   \<and> particleCount [[demo_particle (3 / 2)], [demo_particle (7 / 2), demo_particle (5 / 2)]] = 3
   \<and> particleCount demo_store = 3"
proof -
  have m: "migrate demo_domain demo_partition 3 (integrate demo_update demo_store)
     = Inr [[demo_particle (3 / 2)], [demo_particle (7 / 2), demo_particle (5 / 2)]]"
    by (simp only: demo_integrate demo_migrate)
  have c: "particleCount [[demo_particle (3 / 2)], [demo_particle (7 / 2), demo_particle (5 / 2)]] = 3"
    by (simp add: particleCount_def)
  show ?thesis
    using m c migration_conserves_particles[OF m, THEN conjunct2, THEN conjunct1]
    by simp
qed

subsection \<open>C8: the minimum halo width\<close>

text \<open>
  Claim C8. The minimum halo width is the constant 3 of the constructor's initialiser
  list. A solver that the constructor returns holds it in \<^verbatim>\<open>_halo_min\<close>, and its mesh
  is the one the constructor of \<^verbatim>\<open>Mesh\<close> returns for the minimum width 3 (the first
  call of the constructor). Every call of \<^verbatim>\<open>communicateParticles\<close> that \<^verbatim>\<open>solve\<close> makes
  passes 3, the member still is 3 when \<^verbatim>\<open>solve\<close> returns, and the members a run with
  \<^verbatim>\<open>write_freq\<close> other than 0 ends with are those after \<^verbatim>\<open>num_step\<close> iterations of
  the specification in each of which the particles are migrated, on the mesh rebuilt in
  that iteration, with the halo width 3.
\<close>

theorem halo_minimum:
  assumes "Solver K a = (ev, Inr s)"
  shows "m_halo_min s = 3
       \<and> Mesh_ctor K (global_bounding_box a) (global_num_cell a) (periodic a) (partitioner a)
            (halo_cell_width a) 3 (comm a) = Inr (m_mesh s)
       \<and> hd ev = MeshCtor (halo_cell_width a) 3
       \<and> (\<forall>h. CommunicateParticles h \<in> set (fst (solve K s t_final w)) \<longrightarrow> h = 3)
       \<and> (\<forall>s1 tm. snd (solve K s t_final w) = Inr (s1, tm) \<longrightarrow> m_halo_min s1 = 3)
       \<and> (\<forall>n. num_step_of t_final (m_dt s) = Inr n \<and> w \<noteq> 0 \<longrightarrow>
            snd (solve K s t_final w) =
              Inr ((spec_iteration K (delta_t_of t_final n) 3 ^^ nat n) s,
                   spec_time (delta_t_of t_final n) (nat n)))"
proof -
  note h = Solver_halo[OF assms]
  have m: "Mesh_ctor K (global_bounding_box a) (global_num_cell a) (periodic a) (partitioner a)
            (halo_cell_width a) 3 (comm a) = Inr (m_mesh s)"
    using assms by (auto simp: Solver_def Let_def split: sum.splits)
  have c: "\<forall>h. CommunicateParticles h \<in> set (fst (solve K s t_final w)) \<longrightarrow> h = 3"
  proof (cases "num_step_of t_final (m_dt s)")
    case (Inl err)
    show ?thesis by (simp add: solve_undefined[OF Inl] write_snapshot_no_calls)
  next
    case (Inr n)
    show ?thesis
      using solve_loop_halo[OF h(1), of K w n "delta_t_of t_final n" "Finite 0"]
      by (simp add: solve_unfold[OF Inr] write_snapshot_no_calls)
  qed
  have d: "\<forall>s1 tm. snd (solve K s t_final w) = Inr (s1, tm) \<longrightarrow> m_halo_min s1 = 3"
  proof (cases "num_step_of t_final (m_dt s)")
    case (Inl err)
    show ?thesis by (simp add: solve_undefined[OF Inl])
  next
    case (Inr n)
    show ?thesis
      using solve_loop_halo[OF h(1), of K w n "delta_t_of t_final n" "Finite 0"]
      by (simp add: solve_unfold[OF Inr])
  qed
  have e: "\<forall>n. num_step_of t_final (m_dt s) = Inr n \<and> w \<noteq> 0 \<longrightarrow>
            snd (solve K s t_final w) =
              Inr ((spec_iteration K (delta_t_of t_final n) 3 ^^ nat n) s,
                   spec_time (delta_t_of t_final n) (nat n))"
    by (auto simp: solve_spec spec_state_halo[OF h(1)])
  show ?thesis using h m c d e by (intro conjI)
qed

theorem halo_minimum_witness:
  "Solver recording demo_args =
     ([MeshCtor 3 3, MinDomainGlobalNodeIndex, MaxDomainGlobalNodeIndex, ProblemManagerCtor,
       CommRank, LoadBalancerCtor], Inr (recording_solver 0 (recorded []) []))
   \<and> m_halo_min (recording_solver 0 (recorded []) []) = 3
   \<and> Mesh_ctor recording (global_bounding_box demo_args) (global_num_cell demo_args)
        (periodic demo_args) (partitioner demo_args) (halo_cell_width demo_args) 3
        (comm demo_args) = Inr (recorded [])
   \<and> minimum_halo (recorded []) = 3
   \<and> CommunicateParticles 3
       \<in> set (fst (solve recording (recording_solver 0 (recorded []) []) (Finite 2) 2))
   \<and> num_step_of (Finite 2) (m_dt (recording_solver 0 (recorded []) [])) = Inr 2
   \<and> (2::int) \<noteq> 0
   \<and> snd (solve recording (recording_solver 0 (recorded []) []) (Finite 2) 2) =
       Inr (recording_solver 2 (recorded [(2, Finite 4), (1, Finite 1)])
              (first_iteration @ second_iteration), Finite 2)
   \<and> m_halo_min (recording_solver 2 (recorded [(2, Finite 4), (1, Finite 1)])
                   (first_iteration @ second_iteration)) = 3
   \<and> first_iteration ! 2 = Migrated (recorded [(1, Finite 1)]) 3
   \<and> second_iteration ! 2 = Migrated (recorded [(2, Finite 4), (1, Finite 1)]) 3"
proof -
  note H = halo_minimum[OF recording_Solver, where t_final = "Finite 2" and w = 2]
  have hm: "m_halo_min (recording_solver 0 (recorded []) []) = 3" using H by (rule conjunct1)
  have mc: "Mesh_ctor recording (global_bounding_box demo_args) (global_num_cell demo_args)
        (periodic demo_args) (partitioner demo_args) (halo_cell_width demo_args) 3
        (comm demo_args) = Inr (recorded [])"
    using H[THEN conjunct2, THEN conjunct1] by (simp add: recording_solver_def)
  have mh: "minimum_halo (recorded []) = 3" by (simp add: recorded_def)
  have cp: "CommunicateParticles 3
       \<in> set (fst (solve recording (recording_solver 0 (recorded []) []) (Finite 2) 2))"
    by (simp only: recording_solve fst_conv) simp
  have w: "(2::int) \<noteq> 0" by simp
  have n2: "nat 2 = 2" by simp
  note E = H[THEN conjunct2, THEN conjunct2, THEN conjunct2, THEN conjunct2, THEN conjunct2,
      rule_format, OF conjI[OF recording_num_step w]]
  have r: "snd (solve recording (recording_solver 0 (recorded []) []) (Finite 2) 2) =
       Inr (recording_solver 2 (recorded [(2, Finite 4), (1, Finite 1)])
              (first_iteration @ second_iteration), Finite 2)"
    by (simp only: E delta_t_of_2 n2 funpow.simps comp_def id_apply numeral_2_eq_2
        recording_first recording_second spec_times[unfolded numeral_2_eq_2])
  note h2 = H[THEN conjunct2, THEN conjunct2, THEN conjunct2, THEN conjunct2, THEN conjunct1,
      rule_format, OF r]
  have f: "first_iteration ! 2 = Migrated (recorded [(1, Finite 1)]) 3"
    by (simp add: first_iteration_def)
  have g: "second_iteration ! 2 = Migrated (recorded [(2, Finite 4), (1, Finite 1)]) 3"
    by (simp add: second_iteration_def)
  show ?thesis
    using recording_Solver hm mc mh cp recording_num_step[of 0 "recorded []" "[]"] w r h2 f g
    by (intro conjI)
qed

subsection \<open>C9: a final time below the time step\<close>

text \<open>
  Claim C9. For every final time \<open>t\<close> and time step \<open>d\<close> that are values of the type
  \<^verbatim>\<open>double\<close> with \<open>0 < t < d\<close>, the run of \<^verbatim>\<open>solve\<close> is: the snapshot before the loop;
  the division of \<open>t\<close> by \<open>d\<close>, whose rounded quotient is below 1, so that
  \<^verbatim>\<open>num_step\<close> is 0; the division of \<open>t\<close> by the \<^verbatim>\<open>double\<close> zero that \<^verbatim>\<open>num_step\<close>
  converts to, a division by zero in the sense of IEEE 754 whose result is the positive
  infinity; and nothing more, as the loop makes no iteration and no integrator step
  runs. Nothing stands between the two divisions: the second one is evaluated whatever
  \<^verbatim>\<open>num_step\<close> is.
\<close>

theorem division_by_zero_steps:
  assumes "is_double t" and "is_double d" and "0 < t" and "t < d" and "m_dt s = Finite d"
  shows "(\<exists>q. fdiv (Finite t) (Finite d) = Finite q \<and> 0 \<le> q \<and> q < 1
            \<and> solve K s (Finite t) w =
                (write_snapshot K s 0 (Finite 0)
                   @ [Divide (Finite t) (Finite d) (Finite q),
                      Divide (Finite t) (Finite 0) PInf],
                 Inr (s, Finite 0)))
       \<and> num_step_of (Finite t) (Finite d) = Inr 0
       \<and> int_to_double 0 = Finite 0
       \<and> divide_by_zero (Finite t) (Finite 0)
       \<and> delta_t_of (Finite t) 0 = PInf"
proof -
  obtain q where q: "fdiv (Finite t) (Finite d) = Finite q" "0 \<le> q" "q < 1"
    using fdiv_below_one[OF assms(1-4)] by blast
  have n: "num_step_of (Finite t) (Finite d) = Inr 0"
    by (rule num_step_zero[OF assms(1-4)])
  have c: "int_to_double 0 = Finite 0" by (simp add: int_to_double_def)
  have z: "divide_by_zero (Finite t) (Finite 0)"
    using assms(3) by (simp add: divide_by_zero_def)
  have i: "delta_t_of (Finite t) 0 = PInf"
    by (rule delta_t_zero_steps[OF assms(3)])
  have n': "num_step_of (Finite t) (m_dt s) = Inr 0" using n assms(5) by simp
  have "solve K s (Finite t) w =
          (write_snapshot K s 0 (Finite 0)
             @ [Divide (Finite t) (Finite d) (Finite q), Divide (Finite t) (Finite 0) PInf],
           Inr (s, Finite 0))"
    using solve_no_iteration[OF n', of K w] by (simp add: assms(5) q(1) c i)
  then show ?thesis using q n c z i by blast
qed

theorem division_by_zero_steps_witness:
  "is_double (5764607523034235 / 1152921504606846976)
   \<and> is_double (5764607523034235 / 576460752303423488)
   \<and> (0::rat) < 5764607523034235 / 1152921504606846976
   \<and> (5764607523034235 / 1152921504606846976 :: rat) < 5764607523034235 / 576460752303423488
   \<and> m_dt (demo_solver\<lparr>m_dt := Finite (5764607523034235 / 576460752303423488)\<rparr>)
       = Finite (5764607523034235 / 576460752303423488)
   \<and> solve (demo 0) (demo_solver\<lparr>m_dt := Finite (5764607523034235 / 576460752303423488)\<rparr>)
        (Finite (5764607523034235 / 1152921504606846976)) 1 =
       (write_snapshot (demo 0)
          (demo_solver\<lparr>m_dt := Finite (5764607523034235 / 576460752303423488)\<rparr>) 0 (Finite 0)
          @ [Divide (Finite (5764607523034235 / 1152921504606846976))
               (Finite (5764607523034235 / 576460752303423488)) (Finite (1 / 2)),
             Divide (Finite (5764607523034235 / 1152921504606846976)) (Finite 0) PInf],
        Inr (demo_solver\<lparr>m_dt := Finite (5764607523034235 / 576460752303423488)\<rparr>, Finite 0))
   \<and> divide_by_zero (Finite (5764607523034235 / 1152921504606846976)) (Finite 0)"
proof -
  have p: "(0::rat) < 5764607523034235 / 1152921504606846976" by simp
  have l: "(5764607523034235 / 1152921504606846976 :: rat) < 5764607523034235 / 576460752303423488"
    by simp
  have m: "m_dt (demo_solver\<lparr>m_dt := Finite (5764607523034235 / 576460752303423488)\<rparr>)
       = Finite (5764607523034235 / 576460752303423488)"
    by simp
  note H = division_by_zero_steps[OF double_0005 double_001 p l m, where K = "demo 0" and w = 1]
  obtain q where q: "fdiv (Finite (5764607523034235 / 1152921504606846976))
        (Finite (5764607523034235 / 576460752303423488)) = Finite q"
    and s: "solve (demo 0) (demo_solver\<lparr>m_dt := Finite (5764607523034235 / 576460752303423488)\<rparr>)
        (Finite (5764607523034235 / 1152921504606846976)) 1 =
       (write_snapshot (demo 0)
          (demo_solver\<lparr>m_dt := Finite (5764607523034235 / 576460752303423488)\<rparr>) 0 (Finite 0)
          @ [Divide (Finite (5764607523034235 / 1152921504606846976))
               (Finite (5764607523034235 / 576460752303423488)) (Finite q),
             Divide (Finite (5764607523034235 / 1152921504606846976)) (Finite 0) PInf],
        Inr (demo_solver\<lparr>m_dt := Finite (5764607523034235 / 576460752303423488)\<rparr>, Finite 0))"
    using H[THEN conjunct1] by blast
  have "Finite q = Finite (1 / 2)" using q by (simp only: fdiv_0005_001)
  then have q2: "q = 1 / 2" by (simp only: double.inject)
  show ?thesis
    using double_0005 double_001 p l m s[unfolded q2]
      H[THEN conjunct2, THEN conjunct2, THEN conjunct2, THEN conjunct1]
    by (intro conjI)
qed

subsection \<open>C10: the boundary condition stored by the constructor\<close>

text \<open>
  Claim C10. When the constructor returns a solver, the bounds \<^verbatim>\<open>min\<close> and \<^verbatim>\<open>max\<close> of
  the boundary condition it stores are the ones reported by the mesh it has just built,
  every other part of the boundary condition is the caller's, and the bounds the caller
  supplied are never used: any other pair of supplied bounds gives the same events and
  the same solver.
\<close>

theorem Solver_boundary_condition:
  assumes "Solver K a = (ev, Inr s)"
  shows "min_bc (m_bc s) = minDomainGlobalNodeIndex K (m_mesh s)
       \<and> max_bc (m_bc s) = maxDomainGlobalNodeIndex K (m_mesh s)
       \<and> boundary (m_bc s) = boundary (bc a)
       \<and> Mesh_ctor K (global_bounding_box a) (global_num_cell a) (periodic a) (partitioner a)
            (halo_cell_width a) 3 (comm a) = Inr (m_mesh s)
       \<and> (\<forall>lo hi. Solver K (a\<lparr>bc := (bc a)\<lparr>min_bc := lo, max_bc := hi\<rparr>\<rparr>) = (ev, Inr s))"
  using assms
  by (auto simp: Solver_def Let_def split: sum.splits)

theorem Solver_boundary_condition_witness:
  "Solver (demo 0) demo_args =
     ([MeshCtor 3 3, MinDomainGlobalNodeIndex, MaxDomainGlobalNodeIndex, ProblemManagerCtor,
       CommRank, LoadBalancerCtor], Inr demo_solver)
   \<and> min_bc (bc demo_args) = [7, 7, 7] \<and> min_bc (m_bc demo_solver) = [0, 0, 0]
   \<and> max_bc (bc demo_args) = [9, 9, 9] \<and> max_bc (m_bc demo_solver) = [8, 8, 8]
   \<and> boundary (m_bc demo_solver) = boundary (bc demo_args)
   \<and> Solver (demo 0) (demo_args\<lparr>bc := (bc demo_args)\<lparr>min_bc := [1], max_bc := [2]\<rparr>\<rparr>)
       = Solver (demo 0) demo_args"
  using Solver_boundary_condition[OF demo_Solver[of 0]]
  by (simp add: demo_Solver demo_def demo_args_def demo_solver_def)

end
